theory Spec2Isabelle
  imports Main "HOL-Library.Word" "HOL-Library.Sublist"
begin

unbundle bit_operations_syntax

section \<open>Certificate ledger: fingerprints, record store, verification\<close>

text \<open>
  A shallow embedding of \<^verbatim>\<open>src/tmsl/app.py\<close>: the function
  \<^verbatim>\<open>generate_certificate_hash\<close>, the table \<^verbatim>\<open>CertificateHash\<close> and the
  two resources \<^verbatim>\<open>IssueCertificate.post\<close> and \<^verbatim>\<open>VerifyCertificate.post\<close>.

  A Python \<^verbatim>\<open>str\<close> that the code normalises and encodes (a field value of a
  document) is a list of code points, lone surrogates included, as \<^verbatim>\<open>json.loads\<close>
  yields them. Dictionary keys, identifiers, messages and hexadecimal digests are only
  compared, stored and returned; they are kept as HOL strings, and \<open>lit\<close> turns one
  into a \<^verbatim>\<open>str\<close>.

  \<^verbatim>\<open>str.lower\<close> depends on the Unicode tables of the interpreter. It is a parameter
  \<open>lower\<close> of the model: every function that lower-cases takes it as its first
  argument, and the theorems hold for every such function.
\<close>

subsection \<open>Exceptions\<close>

datatype exn = AttributeError | UnicodeEncodeError | IntegrityError

subsection \<open>Strings: strip, lower, UTF-8\<close>

type_synonym byte = "8 word"

type_synonym codepoint = nat

type_synonym str = "codepoint list"

definition lit :: "string \<Rightarrow> str" where
  "lit s = map of_char s"

text \<open>The code points of Unicode: a \<^verbatim>\<open>str\<close> holds no number from 0x110000.\<close>

definition valid_str :: "str \<Rightarrow> bool" where
  "valid_str s = list_all (\<lambda>c. c < 0x110000) s"

text \<open>\<^verbatim>\<open>str.isspace\<close> on one code point: the white space of Unicode.\<close>

definition isspace :: "codepoint \<Rightarrow> bool" where
  "isspace c =
     ((9 \<le> c \<and> c \<le> 13) \<or> (28 \<le> c \<and> c \<le> 32) \<or> c = 0x85 \<or> c = 0xA0 \<or> c = 0x1680
      \<or> (0x2000 \<le> c \<and> c \<le> 0x200A) \<or> c = 0x2028 \<or> c = 0x2029 \<or> c = 0x202F
      \<or> c = 0x205F \<or> c = 0x3000)"

text \<open>\<^verbatim>\<open>s.strip()\<close>: leading and trailing white space removed.\<close>

definition strip :: "str \<Rightarrow> str" where
  "strip s = rev (dropWhile isspace (rev (dropWhile isspace s)))"

text \<open>
  \<^verbatim>\<open>s.encode('utf-8')\<close>: one to four bytes for a code point, and
  \<^verbatim>\<open>UnicodeEncodeError\<close> for a lone surrogate. Numbers from 0x110000 are not code
  points; the model gives them no encoding.
\<close>

definition surrogate :: "codepoint \<Rightarrow> bool" where
  "surrogate c \<longleftrightarrow> 0xD800 \<le> c \<and> c \<le> 0xDFFF"

definition encodable :: "codepoint \<Rightarrow> bool" where
  "encodable c \<longleftrightarrow> c < 0x110000 \<and> \<not> surrogate c"

definition utf8_nat :: "codepoint \<Rightarrow> nat list" where
  "utf8_nat c =
     (if c < 0x80 then [c]
      else if c < 0x800 then [0xC0 + c div 64, 0x80 + c mod 64]
      else if c < 0x10000 then [0xE0 + c div 4096, 0x80 + c div 64 mod 64, 0x80 + c mod 64]
      else [0xF0 + c div 262144, 0x80 + c div 4096 mod 64, 0x80 + c div 64 mod 64,
            0x80 + c mod 64])"

definition encode_char :: "codepoint \<Rightarrow> exn + byte list" where
  "encode_char c =
     (if encodable c then Inr (map of_nat (utf8_nat c)) else Inl UnicodeEncodeError)"

fun encode_utf8 :: "str \<Rightarrow> exn + byte list" where
  "encode_utf8 [] = Inr []"
| "encode_utf8 (c # cs) =
     (case encode_char c of
        Inl e \<Rightarrow> Inl e
      | Inr b \<Rightarrow> (case encode_utf8 cs of Inl e \<Rightarrow> Inl e | Inr bs \<Rightarrow> Inr (b @ bs)))"

text \<open>
  What \<^verbatim>\<open>str.lower\<close> does on a string of ASCII characters: A to Z move up by 32.
  It is the instance of the parameter on which concrete ASCII documents are evaluated,
  and \<open>lower_on_ascii\<close> says of a parameter that it agrees with it on ASCII strings,
  as \<^verbatim>\<open>str.lower\<close> does.
\<close>

definition lower_ascii :: "str \<Rightarrow> str" where
  "lower_ascii s = map (\<lambda>c. if 65 \<le> c \<and> c \<le> 90 then c + 32 else c) s"

definition ascii :: "str \<Rightarrow> bool" where
  "ascii s = list_all (\<lambda>c. c < 128) s"

definition lower_on_ascii :: "(str \<Rightarrow> str) \<Rightarrow> bool" where
  "lower_on_ascii lower \<longleftrightarrow> (\<forall>s. ascii s \<longrightarrow> lower s = lower_ascii s)"

subsection \<open>SHA-256 and its hexadecimal digest\<close>

text \<open>
  \<^verbatim>\<open>hashlib.sha256(b).hexdigest()\<close> is library code; it is modelled after
  FIPS 180-4 so that fingerprints can be computed on concrete documents.
\<close>

type_synonym u32 = "32 word"

definition rotr :: "nat \<Rightarrow> u32 \<Rightarrow> u32" where
  "rotr n x = drop_bit n x OR push_bit (32 - n) x"

definition Ch :: "u32 \<Rightarrow> u32 \<Rightarrow> u32 \<Rightarrow> u32" where
  "Ch x y z = (x AND y) XOR (NOT x AND z)"

definition Maj :: "u32 \<Rightarrow> u32 \<Rightarrow> u32 \<Rightarrow> u32" where
  "Maj x y z = (x AND y) XOR (x AND z) XOR (y AND z)"

definition Sigma0 :: "u32 \<Rightarrow> u32" where
  "Sigma0 x = rotr 2 x XOR rotr 13 x XOR rotr 22 x"

definition Sigma1 :: "u32 \<Rightarrow> u32" where
  "Sigma1 x = rotr 6 x XOR rotr 11 x XOR rotr 25 x"

definition sigma0 :: "u32 \<Rightarrow> u32" where
  "sigma0 x = rotr 7 x XOR rotr 18 x XOR drop_bit 3 x"

definition sigma1 :: "u32 \<Rightarrow> u32" where
  "sigma1 x = rotr 17 x XOR rotr 19 x XOR drop_bit 10 x"

text \<open>
  The round constants: the first 32 bits of the fractional parts of the cube roots of the
  first 64 primes, in decimal.
\<close>

definition K256 :: "u32 list" where
  "K256 = [
    1116352408, 1899447441, 3049323471, 3921009573, 961987163, 1508970993,
    2453635748, 2870763221, 3624381080, 310598401, 607225278, 1426881987,
    1925078388, 2162078206, 2614888103, 3248222580, 3835390401, 4022224774,
    264347078, 604807628, 770255983, 1249150122, 1555081692, 1996064986,
    2554220882, 2821834349, 2952996808, 3210313671, 3336571891, 3584528711,
    113926993, 338241895, 666307205, 773529912, 1294757372, 1396182291,
    1695183700, 1986661051, 2177026350, 2456956037, 2730485921, 2820302411,
    3259730800, 3345764771, 3516065817, 3600352804, 4094571909, 275423344,
    430227734, 506948616, 659060556, 883997877, 958139571, 1322822218,
    1537002063, 1747873779, 1955562222, 2024104815, 2227730452, 2361852424,
    2428436474, 2756734187, 3204031479, 3329325298]"

type_synonym state256 =
  "u32 \<times> u32 \<times> u32 \<times> u32 \<times> u32 \<times> u32 \<times> u32 \<times> u32"

definition H256 :: state256 where
  "H256 = (0x6a09e667, 0xbb67ae85, 0x3c6ef372, 0xa54ff53a,
           0x510e527f, 0x9b05688c, 0x1f83d9ab, 0x5be0cd19)"

definition length_bytes :: "nat \<Rightarrow> byte list" where
  "length_bytes n =
     (let l = (of_nat (8 * n) :: 64 word)
      in map (\<lambda>i. ucast (drop_bit (8 * (7 - i)) l)) [0..<8])"

definition sha_pad :: "byte list \<Rightarrow> byte list" where
  "sha_pad m = m @ [0x80] @ replicate ((119 - length m mod 64) mod 64) 0
                 @ length_bytes (length m)"

fun be_words :: "byte list \<Rightarrow> u32 list" where
  "be_words (a # b # c # d # bs) =
     (push_bit 24 (ucast a) OR push_bit 16 (ucast b) OR push_bit 8 (ucast c) OR ucast d)
       # be_words bs"
| "be_words _ = []"

fun schedule :: "nat \<Rightarrow> u32 list \<Rightarrow> u32 list" where
  "schedule 0 w = w"
| "schedule (Suc n) w =
     (let l = length w
      in schedule n
           (w @ [sigma1 (w ! (l - 2)) + w ! (l - 7) + sigma0 (w ! (l - 15)) + w ! (l - 16)]))"

definition round256 :: "state256 \<Rightarrow> u32 \<times> u32 \<Rightarrow> state256" where
  "round256 s kw =
     (case s of (a, b, c, d, e, f, g, h) \<Rightarrow>
      (let t1 = h + Sigma1 e + Ch e f g + fst kw + snd kw;
           t2 = Sigma0 a + Maj a b c
       in (t1 + t2, a, b, c, d + t1, e, f, g)))"

definition add256 :: "state256 \<Rightarrow> state256 \<Rightarrow> state256" where
  "add256 s t =
     (case s of (a, b, c, d, e, f, g, h) \<Rightarrow>
      (case t of (a', b', c', d', e', f', g', h') \<Rightarrow>
        (a + a', b + b', c + c', d + d', e + e', f + f', g + g', h + h')))"

definition compress :: "state256 \<Rightarrow> byte list \<Rightarrow> state256" where
  "compress hs block =
     add256 hs (foldl round256 hs (zip K256 (schedule 48 (be_words block))))"

function blocks :: "byte list \<Rightarrow> byte list list" where
  "blocks bs = (if length bs < 64 then [] else take 64 bs # blocks (drop 64 bs))"
  by pat_completeness auto
termination
  by (relation "measure length") auto

declare blocks.simps [simp del]

definition sha256 :: "byte list \<Rightarrow> byte list" where
  "sha256 m =
     concat (map (\<lambda>w. map (\<lambda>i. ucast (drop_bit (8 * (3 - i)) w)) [0..<4])
       (case foldl compress H256 (blocks (sha_pad m)) of
          (a, b, c, d, e, f, g, h) \<Rightarrow> [a, b, c, d, e, f, g, h]))"

definition hexdigit :: "nat \<Rightarrow> char" where
  "hexdigit n = ''0123456789abcdef'' ! n"

definition hexdigest :: "byte list \<Rightarrow> string" where
  "hexdigest bs = concat (map (\<lambda>b. [hexdigit (unat b div 16), hexdigit (unat b mod 16)]) bs)"

subsection \<open>Documents and \<^verbatim>\<open>generate_certificate_hash\<close>\<close>

text \<open>
  A value of a JSON object: a string, a boolean (the responses use them), or anything
  else (null, number, list, object). A request body is a Python dict, kept as an
  association list read with \<^const>\<open>map_of\<close>.
\<close>

datatype jval = JStr str | JBool bool | JOther

type_synonym dict = "(string \<times> jval) list"

text \<open>\<^verbatim>\<open>data.get(k, '')\<close>\<close>

definition get_default :: "dict \<Rightarrow> string \<Rightarrow> jval" where
  "get_default data k = (case map_of data k of None \<Rightarrow> JStr [] | Some v \<Rightarrow> v)"

text \<open>
  Lines 43 to 46: the f-string. A value that is not a \<^verbatim>\<open>str\<close> has no
  \<^verbatim>\<open>strip\<close> method, and the call raises \<^verbatim>\<open>AttributeError\<close>. The date is
  stripped and not lower-cased.
\<close>

definition data_string :: "(str \<Rightarrow> str) \<Rightarrow> dict \<Rightarrow> exn + str" where
  "data_string lower data =
     (case (get_default data ''recipient'', get_default data ''course'',
            get_default data ''date'', get_default data ''issuer'') of
        (JStr r, JStr c, JStr d, JStr i) \<Rightarrow>
          Inr (lower (strip r) @ lit ''|'' @ lower (strip c) @ lit ''|'' @ strip d @ lit ''|''
                 @ lower (strip i))
      | _ \<Rightarrow> Inl AttributeError)"

text \<open>
  Line 48, first half: \<^verbatim>\<open>data_string.encode('utf-8')\<close>, the canonical form; it
  raises when the string holds a lone surrogate.
\<close>

definition canonical_bytes :: "(str \<Rightarrow> str) \<Rightarrow> dict \<Rightarrow> exn + byte list" where
  "canonical_bytes lower data =
     (case data_string lower data of Inl e \<Rightarrow> Inl e | Inr s \<Rightarrow> encode_utf8 s)"

definition generate_certificate_hash :: "(str \<Rightarrow> str) \<Rightarrow> dict \<Rightarrow> exn + string" where
  "generate_certificate_hash lower data =
     (case canonical_bytes lower data of
        Inl e \<Rightarrow> Inl e
      | Inr b \<Rightarrow> Inr (hexdigest (sha256 b)))"

subsection \<open>The ledger table \<^verbatim>\<open>CertificateHash\<close>\<close>

text \<open>
  A \<^verbatim>\<open>datetime\<close> as \<^verbatim>\<open>datetime.utcnow\<close> returns it, and
  \<^verbatim>\<open>strftime("%Y-%m-%d %H:%M:%S")\<close> on it (for the four-digit years of the clock).
\<close>

record datetime =
  year :: nat
  month :: nat
  day :: nat
  hour :: nat
  minute :: nat
  second :: nat
  microsecond :: nat

definition pad2 :: "nat \<Rightarrow> string" where
  "pad2 n = [hexdigit (n div 10 mod 10), hexdigit (n mod 10)]"

definition pad4 :: "nat \<Rightarrow> string" where
  "pad4 n = pad2 (n div 100) @ pad2 n"

definition strftime :: "datetime \<Rightarrow> string" where
  "strftime t = pad4 (year t) @ ''-'' @ pad2 (month t) @ ''-'' @ pad2 (day t) @ '' ''
                  @ pad2 (hour t) @ '':'' @ pad2 (minute t) @ '':'' @ pad2 (second t)"

text \<open>
  One row of the table. \<^verbatim>\<open>id\<close> is the integer primary key (here \<open>row_id\<close>);
  \<^verbatim>\<open>certificate_id\<close> is declared \<^verbatim>\<open>unique=True\<close>. The ledger is the list of
  rows in insertion order.
\<close>

record CertificateHash =
  row_id :: nat
  certificate_id :: string
  data_hash :: string
  issuer_name :: str
  issued_at :: datetime

type_synonym ledger = "CertificateHash list"

text \<open>The key the database gives a new row: one more than the largest key in use.\<close>

definition next_row_id :: "ledger \<Rightarrow> nat" where
  "next_row_id store = Suc (foldr max (map row_id store) 0)"

text \<open>\<^verbatim>\<open>CertificateHash.query.filter_by(certificate_id=cert_id).first()\<close>\<close>

definition filter_by_first :: "ledger \<Rightarrow> string \<Rightarrow> CertificateHash option" where
  "filter_by_first store cert_id = find (\<lambda>r. certificate_id r = cert_id) store"

subsection \<open>\<^verbatim>\<open>str(uuid.uuid4())\<close>\<close>

text \<open>
  \<^verbatim>\<open>uuid4\<close> takes 16 random bytes, here the 128-bit number \<open>rnd\<close>, and sets the
  variant and version bits; \<^verbatim>\<open>str\<close> prints the 32 hexadecimal digits in groups of
  8, 4, 4, 4 and 12.
\<close>

type_synonym u128 = "128 word"

definition uuid4 :: "u128 \<Rightarrow> u128" where
  "uuid4 rnd =
     ((((rnd AND NOT (push_bit 48 0xc000)) OR push_bit 48 0x8000)
        AND NOT (push_bit 64 0xf000)) OR push_bit 76 4)"

definition hex32 :: "u128 \<Rightarrow> string" where
  "hex32 u = map (\<lambda>i. hexdigit (unat (drop_bit (4 * (31 - i)) u AND 0xf))) [0..<32]"

definition str_uuid :: "u128 \<Rightarrow> string" where
  "str_uuid u =
     (let h = hex32 u
      in take 8 h @ ''-'' @ take 4 (drop 8 h) @ ''-'' @ take 4 (drop 12 h) @ ''-''
           @ take 4 (drop 16 h) @ ''-'' @ drop 20 h)"

subsection \<open>The two resources\<close>

text \<open>A response is the pair the handler returns: the body and the HTTP status.\<close>

type_synonym response = "dict \<times> nat"

definition required_fields :: "string list" where
  "required_fields = [''recipient'', ''course'', ''date'', ''issuer'']"

text \<open>\<^verbatim>\<open>all(k in data for k in ('recipient', 'course', 'date', 'issuer'))\<close>\<close>

definition has_required :: "dict \<Rightarrow> bool" where
  "has_required data = list_all (\<lambda>k. map_of data k \<noteq> None) required_fields"

text \<open>
  \<^verbatim>\<open>data[k]\<close>, read only after \<^const>\<open>has_required\<close> holds, where no
  \<^verbatim>\<open>KeyError\<close> can arise.
\<close>

definition getitem :: "dict \<Rightarrow> string \<Rightarrow> jval" where
  "getitem data k = (case map_of data k of Some v \<Rightarrow> v | None \<Rightarrow> JOther)"

text \<open>
  The string bound to the column \<^verbatim>\<open>issuer_name\<close>; read only after
  \<^const>\<open>generate_certificate_hash\<close> has returned, where the issuer is a \<^verbatim>\<open>str\<close>.
\<close>

fun the_str :: "jval \<Rightarrow> str" where
  "the_str (JStr s) = s"
| "the_str _ = []"

text \<open>\<^verbatim>\<open>str(e)\<close>, shortened to the name of the exception's class.\<close>

fun str_exn :: "exn \<Rightarrow> string" where
  "str_exn AttributeError = ''AttributeError''"
| "str_exn UnicodeEncodeError = ''UnicodeEncodeError''"
| "str_exn IntegrityError = ''IntegrityError''"

text \<open>
  \<^verbatim>\<open>IssueCertificate.post\<close>. \<open>rnd\<close> is what the random source gives
  \<^verbatim>\<open>uuid4\<close> and \<open>now\<close> what the clock gives the column default. The commit
  raises \<^verbatim>\<open>IntegrityError\<close> when the new \<^verbatim>\<open>certificate_id\<close> is already in the
  table (the unique constraint); the handler then rolls back and answers 500.
\<close>

definition IssueCertificate_post ::
    "(str \<Rightarrow> str) \<Rightarrow> u128 \<Rightarrow> datetime \<Rightarrow> dict \<Rightarrow> ledger \<Rightarrow> response \<times> ledger" where
  "IssueCertificate_post lower rnd now data store =
     (if \<not> has_required data then
        (([(''message'',
            JStr (lit ''Missing required fields: recipient, course, date, issuer''))],
          400), store)
      else
        (case generate_certificate_hash lower data of
           Inl e \<Rightarrow>
             (([(''message'',
                 JStr (lit (''An error occurred during issuance: '' @ str_exn e)))],
               500), store)
         | Inr new_hash \<Rightarrow>
             (let cert_uuid = str_uuid (uuid4 rnd);
                  new_record = \<lparr>row_id = next_row_id store, certificate_id = cert_uuid,
                                data_hash = new_hash,
                                issuer_name = the_str (getitem data ''issuer''),
                                issued_at = now\<rparr>
              in if cert_uuid \<in> set (map certificate_id store) then
                   (([(''message'',
                       JStr (lit (''An error occurred during issuance: ''
                                   @ str_exn IntegrityError)))], 500), store)
                 else
                   (([(''message'',
                       JStr (lit ''Certificate hash successfully issued and recorded on the ledger.'')),
                      (''certificate_id'', JStr (lit cert_uuid)),
                      (''recorded_hash'', JStr (lit new_hash)),
                      (''issued_to'', getitem data ''recipient'')], 201),
                    store @ [new_record]))))"

text \<open>
  \<^verbatim>\<open>VerifyCertificate.post\<close>. \<open>cert_id\<close> and \<open>cert_data\<close> are
  \<^verbatim>\<open>data.get('certificate_id')\<close> and \<^verbatim>\<open>data.get('certificate_data')\<close>; an
  absent key (\<^verbatim>\<open>None\<close>) is falsy like the empty string and the empty dict, and is
  modelled by them. The handler only queries the table; the ledger is returned as it was.
\<close>

definition VerifyCertificate_post ::
    "(str \<Rightarrow> str) \<Rightarrow> string \<Rightarrow> dict \<Rightarrow> ledger \<Rightarrow> response \<times> ledger" where
  "VerifyCertificate_post lower cert_id cert_data store =
     (if cert_id = [] \<or> cert_data = [] then
        (([(''message'', JStr (lit ''Missing certificate_id or certificate_data.''))], 400),
         store)
      else if \<not> has_required cert_data then
        (([(''message'', JStr (lit ''Certificate data provided is incomplete.''))], 400),
         store)
      else
        (case filter_by_first store cert_id of
           None \<Rightarrow>
             (([(''message'', JStr (lit ''Certificate ID not found on the ledger.'')),
                (''authentic'', JBool False)], 404), store)
         | Some ledger_record \<Rightarrow>
             (case generate_certificate_hash lower cert_data of
                Inl e \<Rightarrow>
                  (([(''message'',
                      JStr (lit (''An error occurred during verification: ''
                                  @ str_exn e)))], 500), store)
              | Inr verifier_hash \<Rightarrow>
                  (let stored_hash = data_hash ledger_record
                   in if verifier_hash = stored_hash then
                        (([(''message'',
                            JStr (lit ''VERIFIED: The certificate is authentic and has not been tampered with.'')),
                           (''authentic'', JBool True),
                           (''recorded_hash'', JStr (lit stored_hash)),
                           (''verified_hash'', JStr (lit verifier_hash)),
                           (''issued_at'', JStr (lit (strftime (issued_at ledger_record))))],
                          200),
                         store)
                      else
                        (([(''message'',
                            JStr (lit ''FAILED: The certificate data has been altered since issuance.'')),
                           (''authentic'', JBool False),
                           (''recorded_hash'', JStr (lit stored_hash)),
                           (''verified_hash'', JStr (lit verifier_hash))], 200),
                         store)))))"

subsection \<open>Sequences of requests\<close>

text \<open>
  The routes of the API (lines 137 and 138): \<^verbatim>\<open>/api/issue\<close> and
  \<^verbatim>\<open>/api/verify\<close>. No other route touches the table.
\<close>

datatype request = Issue u128 datetime dict | Verify string dict

fun handle :: "(str \<Rightarrow> str) \<Rightarrow> request \<Rightarrow> ledger \<Rightarrow> response \<times> ledger" where
  "handle lower (Issue rnd now data) store = IssueCertificate_post lower rnd now data store"
| "handle lower (Verify cert_id cert_data) store =
     VerifyCertificate_post lower cert_id cert_data store"

text \<open>The requests served one after the other: the responses, and the ledger at the end.\<close>

fun run :: "(str \<Rightarrow> str) \<Rightarrow> request list \<Rightarrow> ledger \<Rightarrow> response list \<times> ledger" where
  "run lower [] store = ([], store)"
| "run lower (q # qs) store =
     (case handle lower q store of (resp, store') \<Rightarrow>
        (case run lower qs store' of (resps, store'') \<Rightarrow> (resp # resps, store'')))"

text \<open>The identifiers handed out: the \<^verbatim>\<open>certificate_id\<close> of every 201 response.\<close>

fun issued_ids :: "response list \<Rightarrow> jval list" where
  "issued_ids [] = []"
| "issued_ids ((body, status) # rs) =
     (if status = 201 then getitem body ''certificate_id'' # issued_ids rs else issued_ids rs)"

subsection \<open>Reference definitions for the canonical form\<close>

text \<open>The code point of the delimiter, and \<^verbatim>\<open>sep.join(parts)\<close>.\<close>

abbreviation pipe :: codepoint where
  "pipe \<equiv> 124"

fun join :: "str \<Rightarrow> str list \<Rightarrow> str" where
  "join sep [] = []"
| "join sep [x] = x"
| "join sep (x # y # ys) = x @ sep @ join sep (y # ys)"

text \<open>A document: each of the four required fields is present and holds a string.\<close>

definition is_document :: "dict \<Rightarrow> bool" where
  "is_document doc =
     list_all (\<lambda>k. case map_of doc k of Some (JStr s) \<Rightarrow> valid_str s | _ \<Rightarrow> False)
       required_fields"

definition field :: "dict \<Rightarrow> string \<Rightarrow> str" where
  "field doc k = the_str (getitem doc k)"


text \<open>The same with the date stripped only, which is what lines 43 to 46 compute.\<close>

definition normalize_field :: "(str \<Rightarrow> str) \<Rightarrow> string \<Rightarrow> str \<Rightarrow> str" where
  "normalize_field lower k v = (if k = ''date'' then strip v else lower (strip v))"

definition canonical_string :: "(str \<Rightarrow> str) \<Rightarrow> dict \<Rightarrow> str" where
  "canonical_string lower doc =
     join (lit ''|'') (map (\<lambda>k. normalize_field lower k (field doc k)) required_fields)"

definition canonical_form :: "(str \<Rightarrow> str) \<Rightarrow> dict \<Rightarrow> exn + byte list" where
  "canonical_form lower doc = encode_utf8 (canonical_string lower doc)"

text \<open>
  Two strings differ only in surrounding white space or letter case, letter case being
  what \<open>lower\<close> removes: each is a core between two runs of white space, and the
  cores agree once lower-cased.
\<close>

definition ws_case_variant :: "(str \<Rightarrow> str) \<Rightarrow> str \<Rightarrow> str \<Rightarrow> bool" where
  "ws_case_variant lower s t \<longleftrightarrow>
     (\<exists>p u q p' u' q'. s = p @ u @ q \<and> t = p' @ u' @ q'
        \<and> list_all isspace (p @ q @ p' @ q') \<and> lower u = lower u')"

text \<open>
  The same without reference to \<open>lower\<close>. Two code points are a case pair when they
  are equal or are the two cases of one of the letters A to Z. Two strings differ only
  in surrounding white space or the case of ASCII letters when their cores are equal, or
  are ASCII strings that agree up to case pairs. The last relation allows the white
  space only.
\<close>

definition case_pair :: "codepoint \<Rightarrow> codepoint \<Rightarrow> bool" where
  "case_pair c d \<longleftrightarrow>
     c = d \<or> (65 \<le> c \<and> c \<le> 90 \<and> d = c + 32) \<or> (65 \<le> d \<and> d \<le> 90 \<and> c = d + 32)"

definition ws_ascii_case_variant :: "str \<Rightarrow> str \<Rightarrow> bool" where
  "ws_ascii_case_variant s t \<longleftrightarrow>
     (\<exists>p u q p' u' q'. s = p @ u @ q \<and> t = p' @ u' @ q'
        \<and> list_all isspace (p @ q @ p' @ q')
        \<and> (u = u' \<or> (ascii u \<and> ascii u' \<and> list_all2 case_pair u u')))"


text \<open>SHA-256 does not collide on two canonical forms, where both exist.\<close>

definition no_collision :: "exn + byte list \<Rightarrow> exn + byte list \<Rightarrow> bool" where
  "no_collision x y \<longleftrightarrow>
     (case (x, y) of (Inr b, Inr b') \<Rightarrow> sha256 b = sha256 b' \<longrightarrow> b = b' | _ \<Rightarrow> True)"

subsection \<open>The concrete scenario of the specification\<close>

text \<open>
  The document of the scenario, the same with another course, a time of issuance, and
  the response and the record that issuing the document on the empty ledger gives when
  the random source returns 0.
\<close>

abbreviation scenario_doc :: dict where
  "scenario_doc \<equiv>
     [(''recipient'', JStr (lit ''Bob Lee'')), (''course'', JStr (lit ''Systems Design'')),
      (''date'', JStr (lit ''2024-01-10'')), (''issuer'', JStr (lit ''Acme''))]"

abbreviation scenario_tampered :: dict where
  "scenario_tampered \<equiv>
     [(''recipient'', JStr (lit ''Bob Lee'')), (''course'', JStr (lit ''Systems Design 2'')),
      (''date'', JStr (lit ''2024-01-10'')), (''issuer'', JStr (lit ''Acme''))]"

abbreviation scenario_time :: datetime where
  "scenario_time \<equiv> \<lparr>year = 2024, month = 1, day = 10, hour = 9, minute = 5, second = 7,
                      microsecond = 0\<rparr>"

abbreviation scenario_record :: CertificateHash where
  "scenario_record \<equiv>
     \<lparr>row_id = 1, certificate_id = ''00000000-0000-4000-8000-000000000000'',
      data_hash = ''6c10b3404e687938f56ea859003f91a64de1792b312a5aa18bb4ae55f479a5ad'',
      issuer_name = lit ''Acme'', issued_at = scenario_time\<rparr>"

abbreviation scenario_body :: dict where
  "scenario_body \<equiv>
     [(''message'',
         JStr (lit ''Certificate hash successfully issued and recorded on the ledger.'')),
      (''certificate_id'', JStr (lit ''00000000-0000-4000-8000-000000000000'')),
      (''recorded_hash'',
         JStr (lit ''6c10b3404e687938f56ea859003f91a64de1792b312a5aa18bb4ae55f479a5ad'')),
      (''issued_to'', JStr (lit ''Bob Lee''))]"

section \<open>Properties\<close>

subsection \<open>Strings and encodings\<close>

lemma lit_inj: "lit s = lit t \<Longrightarrow> s = t"
proof -
  have "inj (of_char :: char \<Rightarrow> nat)"
    by (rule injI) (simp add: of_char_eq_iff)
  then show "lit s = lit t \<Longrightarrow> s = t"
    unfolding lit_def by (simp add: inj_map_eq_map)
qed

lemma lit_pipe: "lit ''|'' = [124]"
  by (simp add: lit_def)

lemma dropWhile_all: "list_all P xs \<Longrightarrow> dropWhile P (xs @ ys) = dropWhile P ys"
  by (induction xs) auto

lemma strip_append_space:
  assumes "list_all isspace q"
  shows "strip (u @ q) = strip u"
proof (cases "list_all isspace u")
  case True
  have "dropWhile isspace (u @ q) = []"
    using True assms by (simp add: dropWhile_eq_Nil_conv list_all_iff)
  moreover have "dropWhile isspace u = []"
    using True by (simp add: dropWhile_eq_Nil_conv list_all_iff)
  ultimately show ?thesis unfolding strip_def by (simp only: rev.simps dropWhile.simps)
next
  case False
  then obtain x where "x \<in> set u" "\<not> isspace x"
    by (auto simp: list_all_iff)
  then have "dropWhile isspace (u @ q) = dropWhile isspace u @ q"
    by (rule dropWhile_append1)
  with assms show ?thesis
    by (simp add: strip_def dropWhile_all)
qed

lemma strip_pad:
  "list_all isspace p \<Longrightarrow> list_all isspace q \<Longrightarrow> strip (p @ u @ q) = strip u"
  using strip_append_space [of q "p @ u"] strip_append_space [of q u]
  by (simp add: strip_def dropWhile_all)

lemma strip_decomp:
  "\<exists>p q. s = p @ strip s @ q \<and> list_all isspace p \<and> list_all isspace q"
proof -
  let ?d = "dropWhile isspace s"
  have 1: "s = takeWhile isspace s @ ?d" by simp
  have "rev (dropWhile isspace (rev ?d)) @ rev (takeWhile isspace (rev ?d)) = rev (rev ?d)"
    by (simp only: rev_append [symmetric] takeWhile_dropWhile_id)
  then have 2: "?d = strip s @ rev (takeWhile isspace (rev ?d))"
    by (simp add: strip_def)
  have 3: "list_all isspace (takeWhile isspace s)"
    by (auto simp: list_all_iff dest: set_takeWhileD)
  have 4: "list_all isspace (rev (takeWhile isspace (rev ?d)))"
    by (auto simp: list_all_iff dest: set_takeWhileD)
  from 1 2 have "s = takeWhile isspace s @ strip s @ rev (takeWhile isspace (rev ?d))"
    by metis
  with 3 4 show ?thesis by blast
qed

lemma distinct_hex: "distinct ''0123456789abcdef''"
  by simp

lemma hexdigit_inj: "a < 16 \<Longrightarrow> b < 16 \<Longrightarrow> hexdigit a = hexdigit b \<Longrightarrow> a = b"
  using nth_eq_iff_index_eq [OF distinct_hex, of a b] by (simp add: hexdigit_def)

lemma byte_nibbles:
  fixes b c :: byte
  assumes "hexdigit (unat b div 16) = hexdigit (unat c div 16)"
    and "hexdigit (unat b mod 16) = hexdigit (unat c mod 16)"
  shows "b = c"
proof -
  have lb: "unat b < 256" and lc: "unat c < 256"
    using unsigned_less [of b, where 'a = nat] unsigned_less [of c, where 'a = nat] by simp_all
  then have "unat b div 16 < 16" "unat c div 16 < 16" by simp_all
  then have d: "unat b div 16 = unat c div 16"
    using assms(1) hexdigit_inj by blast
  have "unat b mod 16 < 16" "unat c mod 16 < 16" by simp_all
  then have "unat b mod 16 = unat c mod 16"
    using assms(2) hexdigit_inj by blast
  with d have "unat b = unat c"
    by (metis div_mult_mod_eq)
  then show ?thesis by (simp add: word_unat_eq_iff)
qed

lemma hexdigest_inj: "hexdigest bs = hexdigest cs \<Longrightarrow> bs = cs"
proof (induction bs arbitrary: cs)
  case Nil
  then show ?case by (cases cs) (simp_all add: hexdigest_def)
next
  case (Cons b bs)
  then obtain c cs' where cs: "cs = c # cs'"
    by (cases cs) (simp_all add: hexdigest_def)
  with Cons.prems have "b = c" and "hexdigest bs = hexdigest cs'"
    by (auto simp: hexdigest_def intro: byte_nibbles)
  with Cons.IH cs show ?case by simp
qed





lemma isspace_lower_ascii:
  "isspace (if 65 \<le> c \<and> c \<le> 90 then c + 32 else c) = isspace c"
  by (auto simp: isspace_def)

lemma lower_ascii_strip: "lower_ascii (strip s) = strip (lower_ascii s)"
proof -
  have *: "isspace \<circ> (\<lambda>c. if 65 \<le> c \<and> c \<le> 90 then c + 32 else c) = isspace"
    by (rule ext) (simp only: o_apply isspace_lower_ascii)
  show ?thesis
    by (simp add: lower_ascii_def strip_def dropWhile_map rev_map *)
qed

lemma ascii_strip: "ascii s \<Longrightarrow> ascii (strip s)"
  by (auto simp: ascii_def strip_def list_all_iff dest!: set_dropWhileD)

lemma pipe_split:
  "124 \<notin> set a \<Longrightarrow> 124 \<notin> set b \<Longrightarrow> a @ 124 # x = b @ 124 # y \<Longrightarrow> a = b \<and> x = y"
  for a b x y :: str
proof (induction a arbitrary: b)
  case Nil
  then show ?case by (cases b) auto
next
  case (Cons c a)
  then show ?case by (cases b) auto
qed

lemma r2: "(c::nat) div 64 = d div 64 \<Longrightarrow> c mod 64 = d mod 64 \<Longrightarrow> c = d"
  by (metis div_mult_mod_eq)

lemma d4096: "(c::nat) div 4096 = c div 64 div 64"
  using div_mult2_eq [of c 64 64] by simp

lemma d262144: "(c::nat) div 262144 = c div 4096 div 64"
  using div_mult2_eq [of c 4096 64] by simp

lemma lo2: "(128::nat) \<le> d \<Longrightarrow> 2 \<le> d div 64"
  using div_le_mono [of 128 d 64] by simp

lemma hi2: "(c::nat) < 2048 \<Longrightarrow> c div 64 < 32"
  using less_mult_imp_div_less [of c 32 64] by simp

lemma hi3: "(c::nat) < 65536 \<Longrightarrow> c div 4096 < 16"
  using less_mult_imp_div_less [of c 16 4096] by simp

lemma hi4: "(c::nat) < 1114112 \<Longrightarrow> c div 262144 < 5"
  using less_mult_imp_div_less [of c 5 262144] by simp

lemma r3:
  assumes "(c::nat) div 4096 = d div 4096" and "c div 64 mod 64 = d div 64 mod 64"
    and "c mod 64 = d mod 64"
  shows "c = d"
proof -
  from assms(1) have "c div 64 div 64 = d div 64 div 64"
    by (simp only: d4096)
  from this assms(2) have "c div 64 = d div 64" by (rule r2)
  from this assms(3) show ?thesis by (rule r2)
qed

lemma r4:
  assumes "(c::nat) div 262144 = d div 262144" and "c div 4096 mod 64 = d div 4096 mod 64"
    and "c div 64 mod 64 = d div 64 mod 64" and "c mod 64 = d mod 64"
  shows "c = d"
proof -
  from assms(1) have "c div 4096 div 64 = d div 4096 div 64"
    by (simp only: d262144)
  from this assms(2) have "c div 4096 = d div 4096" by (rule r2)
  from this assms(3,4) show ?thesis by (rule r3)
qed

lemma utf8_nat_inj:
  assumes "c < 0x110000" and "d < 0x110000" and "utf8_nat c @ xs = utf8_nat d @ ys"
  shows "c = d"
proof -
  consider (1) "c < 128" | (2) "128 \<le> c" "c < 2048" | (3) "2048 \<le> c" "c < 65536"
    | (4) "65536 \<le> c" by linarith
  then show ?thesis
  proof cases
    case 1
    consider (a) "d < 128" | (b) "128 \<le> d" "d < 2048" | (c) "2048 \<le> d" by linarith
    then show ?thesis
    proof cases
      case a with 1 assms(3) show ?thesis by (simp add: utf8_nat_def)
    next
      case b with 1 assms(3) lo2 [of d] show ?thesis by (simp add: utf8_nat_def)
    next
      case c with 1 assms(3) show ?thesis by (simp add: utf8_nat_def split: if_splits)
    qed
  next
    case 2
    consider (a) "d < 128" | (b) "128 \<le> d" "d < 2048" | (c) "2048 \<le> d" by linarith
    then show ?thesis
    proof cases
      case a with 2 assms(3) lo2 [of c] show ?thesis by (simp add: utf8_nat_def)
    next
      case b with 2 assms(3) r2 [of c d] show ?thesis by (simp add: utf8_nat_def)
    next
      case c with 2 assms(3) hi2 [of c] show ?thesis
        by (simp add: utf8_nat_def split: if_splits)
    qed
  next
    case 3
    consider (a) "d < 128" | (b) "128 \<le> d" "d < 2048" | (c) "2048 \<le> d" "d < 65536"
      | (d) "65536 \<le> d" by linarith
    then show ?thesis
    proof cases
      case a with 3 assms(3) show ?thesis by (simp add: utf8_nat_def)
    next
      case b with 3 assms(3) hi2 [of d] show ?thesis by (simp add: utf8_nat_def)
    next
      case c with 3 assms(3) r3 [of c d] show ?thesis by (simp add: utf8_nat_def)
    next
      case d with 3 assms(3) hi3 [of c] show ?thesis by (simp add: utf8_nat_def)
    qed
  next
    case 4
    consider (a) "d < 128" | (b) "128 \<le> d" "d < 2048" | (c) "2048 \<le> d" "d < 65536"
      | (d) "65536 \<le> d" by linarith
    then show ?thesis
    proof cases
      case a with 4 assms(3) show ?thesis by (simp add: utf8_nat_def)
    next
      case b with 4 assms(3) hi2 [of d] show ?thesis by (simp add: utf8_nat_def)
    next
      case c with 4 assms(3) hi3 [of d] show ?thesis by (simp add: utf8_nat_def)
    next
      case d with 4 assms(3) r4 [of c d] show ?thesis by (simp add: utf8_nat_def)
    qed
  qed
qed

lemma unat_bytes:
  "\<forall>k \<in> set xs. k < 256 \<Longrightarrow> map unat (map of_nat xs :: byte list) = xs"
  by (induction xs) (simp_all add: unat_of_nat)

lemma utf8_nat_bytes:
  assumes "c < 0x110000"
  shows "map unat (map of_nat (utf8_nat c) :: byte list) = utf8_nat c"
proof -
  have "\<forall>k \<in> set (utf8_nat c). k < 256"
    using assms hi2 [of c] hi3 [of c] hi4 [of c]
    by (auto simp: utf8_nat_def)
  then show ?thesis by (rule unat_bytes)
qed

lemma utf8_nat_nonempty: "utf8_nat c \<noteq> []"
  by (simp add: utf8_nat_def)

lemma encode_char_Inr:
  "encode_char c = Inr b \<longleftrightarrow> encodable c \<and> b = map of_nat (utf8_nat c)"
  by (auto simp: encode_char_def)

lemma encode_char_Inl: "encode_char c = Inl e \<longleftrightarrow> \<not> encodable c \<and> e = UnicodeEncodeError"
  by (auto simp: encode_char_def)

lemma encode_char_append:
  assumes "encode_char c = Inr x" and "encode_char d = Inr y" and "x @ xs = y @ ys"
  shows "c = d \<and> xs = ys"
proof -
  from assms(1,2) have c: "c < 0x110000" and d: "d < 0x110000"
    and x: "x = map of_nat (utf8_nat c)" and y: "y = map of_nat (utf8_nat d)"
    by (simp_all add: encode_char_Inr encodable_def)
  from assms(3) have "map unat x @ map unat xs = map unat y @ map unat ys"
    by (metis map_append)
  then have "utf8_nat c @ map unat xs = utf8_nat d @ map unat ys"
    unfolding x y by (simp only: utf8_nat_bytes [OF c] utf8_nat_bytes [OF d])
  with c d have "c = d" by (rule utf8_nat_inj)
  with assms x y show ?thesis by simp
qed

lemma encode_utf8_inj: "encode_utf8 s = Inr b \<Longrightarrow> encode_utf8 t = Inr b \<Longrightarrow> s = t"
proof (induction s arbitrary: t b)
  case Nil
  then show ?case
    by (cases t) (auto simp: encode_char_Inr utf8_nat_nonempty split: sum.splits)
next
  case (Cons c s)
  from Cons.prems(1) obtain x xs where x: "encode_char c = Inr x"
    and xs: "encode_utf8 s = Inr xs" and b: "b = x @ xs"
    by (auto split: sum.splits)
  from x have "x \<noteq> []" by (simp add: encode_char_Inr utf8_nat_nonempty)
  with Cons.prems(2) b obtain d t' where t: "t = d # t'"
    by (cases t) auto
  with Cons.prems(2) obtain y ys where y: "encode_char d = Inr y"
    and ys: "encode_utf8 t' = Inr ys" and b': "b = y @ ys"
    by (auto split: sum.splits)
  from b b' have "x @ xs = y @ ys" by simp
  with x y have "c = d \<and> xs = ys"
    by (rule encode_char_append)
  with Cons.IH [OF xs] ys t show ?case by simp
qed

lemma encode_utf8_Inr_iff: "(\<exists>b. encode_utf8 s = Inr b) \<longleftrightarrow> list_all encodable s"
  by (induction s) (auto simp: encode_char_def split: sum.splits)


subsection \<open>Documents and their canonical form\<close>

lemmas string_eval =
  lit_def strip_def isspace_def lower_ascii_def encode_char_def encodable_def surrogate_def
  utf8_nat_def ascii_def

lemmas doc_eval =
  canonical_bytes_def generate_certificate_hash_def data_string_def get_default_def
  getitem_def has_required_def required_fields_def

lemma has_required_iff:
  "has_required data \<longleftrightarrow> (\<forall>k \<in> set required_fields. map_of data k \<noteq> None)"
  by (simp add: has_required_def list_all_iff)

lemma lower_on_ascii_self: "lower_on_ascii lower_ascii"
  by (simp add: lower_on_ascii_def)

lemma lower_asciiD: "lower_on_ascii lower \<Longrightarrow> ascii s \<Longrightarrow> lower s = lower_ascii s"
  by (simp add: lower_on_ascii_def)

lemma is_document_fields:
  assumes "is_document doc"
  obtains r c d i where "map_of doc ''recipient'' = Some (JStr r)"
    "map_of doc ''course'' = Some (JStr c)" "map_of doc ''date'' = Some (JStr d)"
    "map_of doc ''issuer'' = Some (JStr i)"
  using assms
  by (auto simp: is_document_def required_fields_def split: option.splits jval.splits)

lemma canonical_bytes_fields:
  assumes "map_of doc ''recipient'' = Some (JStr r)"
    "map_of doc ''course'' = Some (JStr c)" "map_of doc ''date'' = Some (JStr d)"
    "map_of doc ''issuer'' = Some (JStr i)"
  shows "canonical_bytes lower doc = canonical_form lower doc"
  using assms
  by (simp add: canonical_bytes_def data_string_def get_default_def canonical_form_def
      canonical_string_def required_fields_def normalize_field_def field_def getitem_def)

lemma canonical_bytes_document:
  "is_document doc \<Longrightarrow> canonical_bytes lower doc = canonical_form lower doc"
  by (erule is_document_fields) (rule canonical_bytes_fields)

lemma is_document_required: "is_document doc \<Longrightarrow> has_required doc"
  by (erule is_document_fields) (simp add: has_required_def required_fields_def)

lemma ws_case_variantI:
  assumes "lower (strip s) = lower (strip t)"
  shows "ws_case_variant lower s t"
proof -
  obtain p q where s: "s = p @ strip s @ q" "list_all isspace p" "list_all isspace q"
    using strip_decomp [of s] by blast
  obtain p' q' where t: "t = p' @ strip t @ q'" "list_all isspace p'" "list_all isspace q'"
    using strip_decomp [of t] by blast
  from s t assms show ?thesis
    unfolding ws_case_variant_def by (intro exI [of _ p] exI [of _ "strip s"] exI [of _ q]
      exI [of _ p'] exI [of _ "strip t"] exI [of _ q']) simp
qed

lemma ws_case_variant_ascii_iff:
  "ws_case_variant lower_ascii s t \<longleftrightarrow> lower_ascii (strip s) = lower_ascii (strip t)"
proof
  assume "ws_case_variant lower_ascii s t"
  then obtain p u q p' u' q' where s: "s = p @ u @ q" and t: "t = p' @ u' @ q'"
    and ws: "list_all isspace p" "list_all isspace q" "list_all isspace p'" "list_all isspace q'"
    and l: "lower_ascii u = lower_ascii u'"
    unfolding ws_case_variant_def by auto
  have "lower_ascii (strip s) = strip (lower_ascii u)"
    using s ws by (simp add: strip_pad lower_ascii_strip)
  also have "\<dots> = lower_ascii (strip t)"
    using t ws l by (simp add: strip_pad lower_ascii_strip)
  finally show "lower_ascii (strip s) = lower_ascii (strip t)" .
next
  assume "lower_ascii (strip s) = lower_ascii (strip t)"
  then show "ws_case_variant lower_ascii s t" by (rule ws_case_variantI)
qed


lemma case_pair_lower:
  "list_all2 case_pair u u' \<Longrightarrow> lower_ascii u = lower_ascii u'"
  by (induction rule: list_all2_induct) (auto simp: case_pair_def lower_ascii_def)

lemma ws_ascii_case_variant_lower:
  assumes "lower_on_ascii lower" and "ws_ascii_case_variant s t"
  shows "lower (strip s) = lower (strip t)"
proof -
  from assms(2) obtain p u q p' u' q' where s: "s = p @ u @ q" and t: "t = p' @ u' @ q'"
    and ws: "list_all isspace p" "list_all isspace q" "list_all isspace p'" "list_all isspace q'"
    and core: "u = u' \<or> (ascii u \<and> ascii u' \<and> list_all2 case_pair u u')"
    unfolding ws_ascii_case_variant_def by auto
  have ss: "strip s = strip u" and st: "strip t = strip u'"
    using s t ws by (simp_all add: strip_pad)
  from core show ?thesis
  proof
    assume "u = u'"
    with ss st show ?thesis by simp
  next
    assume a: "ascii u \<and> ascii u' \<and> list_all2 case_pair u u'"
    then have "lower (strip u) = lower_ascii (strip u)"
      and "lower (strip u') = lower_ascii (strip u')"
      using assms(1) by (simp_all add: lower_asciiD ascii_strip)
    moreover from a have "lower_ascii u = lower_ascii u'"
      by (simp add: case_pair_lower)
    ultimately show ?thesis
      unfolding ss st by (simp add: lower_ascii_strip)
  qed
qed



lemma lower_ascii_case_pair:
  "lower_ascii u = lower_ascii u' \<Longrightarrow> list_all2 case_pair u u'"
proof (induction u arbitrary: u')
  case Nil
  then show ?case by (simp add: lower_ascii_def)
next
  case (Cons a u)
  from Cons.prems obtain b v where u': "u' = b # v"
    by (cases u') (simp_all add: lower_ascii_def)
  with Cons.prems have "lower_ascii u = lower_ascii v"
    and "(if 65 \<le> a \<and> a \<le> 90 then a + 32 else a) = (if 65 \<le> b \<and> b \<le> 90 then b + 32 else b)"
    by (simp_all add: lower_ascii_def)
  then have "list_all2 case_pair u v" and "case_pair a b"
    by (auto simp: Cons.IH case_pair_def split: if_splits)
  with u' show ?case by simp
qed

text \<open>
  On ASCII strings, and for a \<open>lower\<close> that acts on them as \<^verbatim>\<open>str.lower\<close> does,
  the two relations are the same.
\<close>

lemma ws_case_variant_on_ascii:
  assumes "lower_on_ascii lower" and "ascii s" and "ascii t"
  shows "ws_case_variant lower s t \<longleftrightarrow> ws_ascii_case_variant s t"
proof
  assume "ws_case_variant lower s t"
  then obtain p u q p' u' q' where s: "s = p @ u @ q" and t: "t = p' @ u' @ q'"
    and ws: "list_all isspace (p @ q @ p' @ q')" and l: "lower u = lower u'"
    unfolding ws_case_variant_def by blast
  from assms(2,3) s t have a: "ascii u" "ascii u'"
    by (simp_all add: ascii_def)
  with assms(1) l have "lower_ascii u = lower_ascii u'"
    by (simp add: lower_asciiD)
  then have "list_all2 case_pair u u'"
    by (rule lower_ascii_case_pair)
  with s t ws a show "ws_ascii_case_variant s t"
    unfolding ws_ascii_case_variant_def by blast
next
  assume "ws_ascii_case_variant s t"
  with assms(1) have "lower (strip s) = lower (strip t)"
    by (rule ws_ascii_case_variant_lower)
  then show "ws_case_variant lower s t"
    by (rule ws_case_variantI)
qed

subsection \<open>The ledger under a sequence of requests\<close>

lemma lit_eq_iff: "lit s = lit t \<longleftrightarrow> s = t"
  using lit_inj by auto

lemma length_str_uuid: "length (str_uuid u) = 36"
  by (simp add: str_uuid_def hex32_def Let_def)

lemma str_uuid_nonempty: "str_uuid u \<noteq> []"
  using length_str_uuid [of u] by auto

lemma has_required_nonempty: "has_required data \<Longrightarrow> data \<noteq> []"
  by (auto simp: has_required_def required_fields_def)

lemma hash_fields:
  assumes "has_required data" and "generate_certificate_hash lower data = Inr h"
  obtains r c d i where "map_of data ''recipient'' = Some (JStr r)"
    "map_of data ''course'' = Some (JStr c)" "map_of data ''date'' = Some (JStr d)"
    "map_of data ''issuer'' = Some (JStr i)"
  using assms
  by (auto simp: has_required_def required_fields_def
      generate_certificate_hash_def canonical_bytes_def data_string_def get_default_def
      split: sum.splits jval.splits option.splits)

lemma issue_created:
  assumes "IssueCertificate_post lower rnd now D store = ((body, 201), store1)"
  obtains h where "has_required D" and "generate_certificate_hash lower D = Inr h"
    and "str_uuid (uuid4 rnd) \<notin> set (map certificate_id store)"
    and "store1 = store @ [\<lparr>row_id = next_row_id store,
                             certificate_id = str_uuid (uuid4 rnd), data_hash = h,
                             issuer_name = the_str (getitem D ''issuer''),
                             issued_at = now\<rparr>]"
    and "body = [(''message'', JStr (lit ''Certificate hash successfully issued and recorded on the ledger.'')),
                 (''certificate_id'', JStr (lit (str_uuid (uuid4 rnd)))),
                 (''recorded_hash'', JStr (lit h)),
                 (''issued_to'', getitem D ''recipient'')]"
  using assms
  by (auto simp: IssueCertificate_post_def Let_def split: if_splits sum.splits)

lemma issue_ledger:
  "snd (IssueCertificate_post lower rnd now D store) = store
   \<or> (\<exists>r. snd (IssueCertificate_post lower rnd now D store) = store @ [r]
          \<and> certificate_id r = str_uuid (uuid4 rnd)
          \<and> certificate_id r \<notin> set (map certificate_id store)
          \<and> snd (fst (IssueCertificate_post lower rnd now D store)) = 201
          \<and> getitem (fst (fst (IssueCertificate_post lower rnd now D store))) ''certificate_id''
              = JStr (lit (certificate_id r)))"
  by (auto simp: IssueCertificate_post_def Let_def getitem_def split: sum.splits)

lemma verify_ledger: "snd (VerifyCertificate_post lower cert_id cert_data store) = store"
  by (simp add: VerifyCertificate_post_def Let_def split: option.split sum.split)

lemma verify_status: "snd (fst (VerifyCertificate_post lower cert_id cert_data store)) \<noteq> 201"
  by (simp add: VerifyCertificate_post_def Let_def split: option.split sum.split)

lemma handle_extends: "\<exists>new. snd (handle lower q store) = store @ new"
proof (cases q)
  case (Issue rnd now D)
  then show ?thesis using issue_ledger [of lower rnd now D store] by auto
next
  case (Verify cert_id cert_data)
  then show ?thesis by (simp add: verify_ledger)
qed

lemma run_extends: "\<exists>new. snd (run lower qs store) = store @ new"
proof (induction qs arbitrary: store)
  case Nil
  then show ?case by simp
next
  case (Cons q qs)
  obtain n1 where 1: "snd (handle lower q store) = store @ n1"
    using handle_extends by blast
  obtain n2 where 2: "snd (run lower qs (store @ n1)) = (store @ n1) @ n2"
    using Cons.IH by blast
  from 1 2 show ?case
    by (auto simp: split_def)
qed

lemma handle_cases:
  "(snd (handle lower q store) = store \<and> snd (fst (handle lower q store)) \<noteq> 201)
   \<or> (\<exists>r. snd (handle lower q store) = store @ [r]
          \<and> certificate_id r \<notin> set (map certificate_id store)
          \<and> snd (fst (handle lower q store)) = 201
          \<and> getitem (fst (fst (handle lower q store))) ''certificate_id'' = JStr (lit (certificate_id r)))"
proof (cases q)
  case (Issue rnd now D)
  then show ?thesis
    by (auto simp: IssueCertificate_post_def Let_def getitem_def split: sum.splits)
next
  case (Verify cert_id cert_data)
  then show ?thesis by (simp add: verify_ledger verify_status)
qed

lemma run_prefix: "prefix store (snd (run lower qs store))"
  using run_extends [of lower qs store] by (auto simp: prefix_def)

lemma find_app:
  "find P (xs @ ys) = (case find P xs of None \<Rightarrow> find P ys | Some x \<Rightarrow> Some x)"
  by (induction xs) simp_all

lemma filter_by_first_append:
  "filter_by_first store cid = Some r \<Longrightarrow> filter_by_first (store @ new) cid = Some r"
  by (simp add: filter_by_first_def find_app)

lemma filter_by_first_fresh:
  assumes "cid \<notin> set (map certificate_id store)" and "certificate_id r = cid"
  shows "filter_by_first (store @ [r]) cid = Some r"
proof -
  have "find (\<lambda>x. certificate_id x = cid) store = None"
    using assms(1) by (auto simp: find_None_iff)
  with assms(2) show ?thesis
    by (simp add: filter_by_first_def find_app)
qed


lemma issued_record:
  assumes "IssueCertificate_post lower rnd now D store = ((body, 201), store1)"
  shows "\<exists>h. generate_certificate_hash lower D = Inr h \<and> has_required D
           \<and> getitem body ''certificate_id'' = JStr (lit (str_uuid (uuid4 rnd)))
           \<and> getitem body ''recorded_hash'' = JStr (lit h)
           \<and> (\<forall>qs. filter_by_first (snd (run lower qs store1)) (str_uuid (uuid4 rnd)) =
                 Some \<lparr>row_id = next_row_id store, certificate_id = str_uuid (uuid4 rnd),
                        data_hash = h, issuer_name = the_str (getitem D ''issuer''),
                        issued_at = now\<rparr>)"
proof -
  let ?cid = "str_uuid (uuid4 rnd)"
  from assms obtain h where h: "generate_certificate_hash lower D = Inr h" and req: "has_required D"
    and fresh: "?cid \<notin> set (map certificate_id store)"
    and st: "store1 = store @ [\<lparr>row_id = next_row_id store, certificate_id = ?cid,
                data_hash = h, issuer_name = the_str (getitem D ''issuer''),
                issued_at = now\<rparr>]"
    and body: "body = [(''message'', JStr (lit ''Certificate hash successfully issued and recorded on the ledger.'')),
                 (''certificate_id'', JStr (lit ?cid)), (''recorded_hash'', JStr (lit h)),
                 (''issued_to'', getitem D ''recipient'')]"
    by (rule issue_created)
  let ?r = "\<lparr>row_id = next_row_id store, certificate_id = ?cid, data_hash = h,
             issuer_name = the_str (getitem D ''issuer''), issued_at = now\<rparr>"
  have 1: "filter_by_first store1 ?cid = Some ?r"
    unfolding st using fresh by (intro filter_by_first_fresh) simp_all
  have 2: "filter_by_first (snd (run lower qs store1)) ?cid = Some ?r" for qs
  proof -
    obtain new where "snd (run lower qs store1) = store1 @ new"
      using run_extends by blast
    with 1 show ?thesis by (simp add: filter_by_first_append)
  qed
  from body have "getitem body ''certificate_id'' = JStr (lit ?cid)"
    and "getitem body ''recorded_hash'' = JStr (lit h)"
    by (simp_all add: getitem_def)
  with h req 2 show ?thesis by blast
qed

subsection \<open>The canonical string without pipes in its first three fields\<close>

lemma join4_inj:
  assumes "pipe \<notin> set a1" "pipe \<notin> set a2" "pipe \<notin> set a3"
    and "pipe \<notin> set b1" "pipe \<notin> set b2" "pipe \<notin> set b3"
    and "join (lit ''|'') [a1, a2, a3, a4] = join (lit ''|'') [b1, b2, b3, b4]"
  shows "a1 = b1 \<and> a2 = b2 \<and> a3 = b3 \<and> a4 = b4"
proof -
  from assms(7)
  have e1: "a1 @ pipe # (a2 @ pipe # (a3 @ pipe # a4))
          = b1 @ pipe # (b2 @ pipe # (b3 @ pipe # b4))"
    by (simp add: lit_pipe)
  from pipe_split [OF assms(1) assms(4) e1]
  have 1: "a1 = b1" and e2: "a2 @ pipe # (a3 @ pipe # a4) = b2 @ pipe # (b3 @ pipe # b4)"
    by simp_all
  from pipe_split [OF assms(2) assms(5) e2]
  have 2: "a2 = b2" and e3: "a3 @ pipe # a4 = b3 @ pipe # b4"
    by simp_all
  from pipe_split [OF assms(3) assms(6) e3] 1 2 show ?thesis by simp
qed

lemma canonical_string_inj:
  assumes "\<forall>k \<in> set [''recipient'', ''course'', ''date''].
             pipe \<notin> set (normalize_field lower k (field D k))
           \<and> pipe \<notin> set (normalize_field lower k (field D' k))"
    and "canonical_string lower D = canonical_string lower D'"
  shows "\<forall>k \<in> set required_fields.
           normalize_field lower k (field D k) = normalize_field lower k (field D' k)"
proof -
  from assms(2)
  have "join (lit ''|'') [normalize_field lower ''recipient'' (field D ''recipient''),
                         normalize_field lower ''course'' (field D ''course''),
                         normalize_field lower ''date'' (field D ''date''),
                         normalize_field lower ''issuer'' (field D ''issuer'')]
      = join (lit ''|'') [normalize_field lower ''recipient'' (field D' ''recipient''),
                         normalize_field lower ''course'' (field D' ''course''),
                         normalize_field lower ''date'' (field D' ''date''),
                         normalize_field lower ''issuer'' (field D' ''issuer'')]"
    by (simp add: canonical_string_def required_fields_def)
  moreover from assms(1) have
    "pipe \<notin> set (normalize_field lower ''recipient'' (field D ''recipient''))"
    "pipe \<notin> set (normalize_field lower ''course'' (field D ''course''))"
    "pipe \<notin> set (normalize_field lower ''date'' (field D ''date''))"
    "pipe \<notin> set (normalize_field lower ''recipient'' (field D' ''recipient''))"
    "pipe \<notin> set (normalize_field lower ''course'' (field D' ''course''))"
    "pipe \<notin> set (normalize_field lower ''date'' (field D' ''date''))"
    by simp_all
  ultimately have
    "normalize_field lower ''recipient'' (field D ''recipient'')
       = normalize_field lower ''recipient'' (field D' ''recipient'')
     \<and> normalize_field lower ''course'' (field D ''course'')
       = normalize_field lower ''course'' (field D' ''course'')
     \<and> normalize_field lower ''date'' (field D ''date'')
       = normalize_field lower ''date'' (field D' ''date'')
     \<and> normalize_field lower ''issuer'' (field D ''issuer'')
       = normalize_field lower ''issuer'' (field D' ''issuer'')"
    by (intro join4_inj)
  then show ?thesis by (simp add: required_fields_def)
qed

lemma variant_normalize:
  "normalize_field lower k a = normalize_field lower k b \<Longrightarrow> ws_case_variant lower a b"
  by (rule ws_case_variantI) (auto simp: normalize_field_def split: if_splits)

subsection \<open>The scenario, evaluated\<close>

lemma uuid_zero: "str_uuid (uuid4 0) = ''00000000-0000-4000-8000-000000000000''"
  by (simp add: str_uuid_def uuid4_def hex32_def hexdigit_def upt_rec)

lemma uuid_one: "str_uuid (uuid4 1) = ''00000000-0000-4000-8000-000000000001''"
  by (simp add: str_uuid_def uuid4_def hex32_def hexdigit_def upt_rec)

lemmas ledger_eval =
  IssueCertificate_post_def VerifyCertificate_post_def filter_by_first_def next_row_id_def
  strftime_def pad2_def pad4_def hexdigit_def uuid_zero uuid_one Let_def

text \<open>A known answer of SHA-256, and the two fingerprints of the scenario.\<close>

lemma sha256_abc:
  "hexdigest (sha256 [0x61, 0x62, 0x63])
     = ''ba7816bf8f01cfea414140de5dae2223b00361a396177a9cb410ff61f20015ad''"
  by code_simp

lemma scenario_bytes:
  "canonical_bytes lower_ascii scenario_doc =
     Inr [98, 111, 98, 32, 108, 101, 101, 124, 115, 121, 115, 116, 101, 109, 115, 32, 100,
          101, 115, 105, 103, 110, 124, 50, 48, 50, 52, 45, 48, 49, 45, 49, 48, 124, 97, 99,
          109, 101]"
  by (simp add: doc_eval string_eval)

lemma scenario_tampered_bytes:
  "canonical_bytes lower_ascii scenario_tampered =
     Inr [98, 111, 98, 32, 108, 101, 101, 124, 115, 121, 115, 116, 101, 109, 115, 32, 100,
          101, 115, 105, 103, 110, 32, 50, 124, 50, 48, 50, 52, 45, 48, 49, 45, 49, 48, 124,
          97, 99, 109, 101]"
  by (simp add: doc_eval string_eval)

lemma scenario_digest:
  "hexdigest (sha256 [98, 111, 98, 32, 108, 101, 101, 124, 115, 121, 115, 116, 101, 109,
                      115, 32, 100, 101, 115, 105, 103, 110, 124, 50, 48, 50, 52, 45, 48,
                      49, 45, 49, 48, 124, 97, 99, 109, 101])
   = ''6c10b3404e687938f56ea859003f91a64de1792b312a5aa18bb4ae55f479a5ad''"
  by code_simp

lemma scenario_tampered_digest:
  "hexdigest (sha256 [98, 111, 98, 32, 108, 101, 101, 124, 115, 121, 115, 116, 101, 109,
                      115, 32, 100, 101, 115, 105, 103, 110, 32, 50, 124, 50, 48, 50, 52,
                      45, 48, 49, 45, 49, 48, 124, 97, 99, 109, 101])
   = ''5300103c2cb573a90b5ee18c9bd766612d566b41e945cca25accba3ba0fab52f''"
  by code_simp

lemma scenario_fingerprint:
  "generate_certificate_hash lower_ascii scenario_doc
   = Inr ''6c10b3404e687938f56ea859003f91a64de1792b312a5aa18bb4ae55f479a5ad''"
  unfolding generate_certificate_hash_def scenario_bytes
  by (simp only: sum.case scenario_digest)

lemma scenario_tampered_fingerprint:
  "generate_certificate_hash lower_ascii scenario_tampered
   = Inr ''5300103c2cb573a90b5ee18c9bd766612d566b41e945cca25accba3ba0fab52f''"
  unfolding generate_certificate_hash_def scenario_tampered_bytes
  by (simp only: sum.case scenario_tampered_digest)

lemma scenario_documents: "is_document scenario_doc" "is_document scenario_tampered"
  by (simp_all add: is_document_def valid_str_def required_fields_def lit_def)

lemma scenario_issue:
  "IssueCertificate_post lower_ascii 0 scenario_time scenario_doc []
     = ((scenario_body, 201), [scenario_record])"
  by (simp add: ledger_eval scenario_fingerprint has_required_def required_fields_def
      getitem_def)

lemma scenario_no_collision:
  "no_collision (canonical_bytes lower_ascii scenario_doc)
     (canonical_bytes lower_ascii scenario_tampered)"
proof -
  from scenario_fingerprint obtain b where b: "canonical_bytes lower_ascii scenario_doc = Inr b"
    and hb: "hexdigest (sha256 b)
      = ''6c10b3404e687938f56ea859003f91a64de1792b312a5aa18bb4ae55f479a5ad''"
    by (auto simp: generate_certificate_hash_def split: sum.splits)
  from scenario_tampered_fingerprint obtain b'
    where b': "canonical_bytes lower_ascii scenario_tampered = Inr b'"
    and hb': "hexdigest (sha256 b')
      = ''5300103c2cb573a90b5ee18c9bd766612d566b41e945cca25accba3ba0fab52f''"
    by (auto simp: generate_certificate_hash_def split: sum.splits)
  from hb hb' have "sha256 b \<noteq> sha256 b'" by auto
  with b b' show ?thesis by (simp add: no_collision_def)
qed

lemma scenario_later:
  "snd (run lower_ascii [Issue 0 scenario_time scenario_doc, Verify [] scenario_doc,
             Issue 1 scenario_time scenario_doc] [scenario_record])
   = [scenario_record,
      scenario_record\<lparr>row_id := 2, certificate_id := ''00000000-0000-4000-8000-000000000001''\<rparr>]"
  by (simp add: ledger_eval scenario_fingerprint has_required_def required_fields_def
      getitem_def)

text \<open>A document whose recipient is a lone surrogate: both handlers answer 500.\<close>

lemma surrogate_document:
  "is_document [(''recipient'', JStr [0xD800]), (''course'', JStr (lit ''Systems Design'')),
                (''date'', JStr (lit ''2024-01-10'')), (''issuer'', JStr (lit ''Acme''))]
   \<and> IssueCertificate_post lower_ascii 0 scenario_time
        [(''recipient'', JStr [0xD800]), (''course'', JStr (lit ''Systems Design'')),
         (''date'', JStr (lit ''2024-01-10'')), (''issuer'', JStr (lit ''Acme''))] [] =
       (([(''message'',
           JStr (lit ''An error occurred during issuance: UnicodeEncodeError''))], 500), [])
   \<and> VerifyCertificate_post lower_ascii ''00000000-0000-4000-8000-000000000000''
        [(''recipient'', JStr [0xD800]), (''course'', JStr (lit ''Systems Design'')),
         (''date'', JStr (lit ''2024-01-10'')), (''issuer'', JStr (lit ''Acme''))]
        [scenario_record] =
       (([(''message'',
           JStr (lit ''An error occurred during verification: UnicodeEncodeError''))], 500),
        [scenario_record])"
  by (simp add: is_document_def valid_str_def ledger_eval doc_eval string_eval)

subsection \<open>Malformed input\<close>

text \<open>
  Claim C8. A document that lacks one of the four required fields is answered with
  status 400 and a body that holds only a message, by \<^verbatim>\<open>/api/issue\<close> and by
  \<^verbatim>\<open>/api/verify\<close>: the ledger is returned as it was, the answer of verify is the
  same on every ledger (it is given before the table is queried), and no
  \<^verbatim>\<open>authentic\<close> key is reported.
\<close>

theorem missing_field_rejected:
  assumes "k \<in> set required_fields" and "map_of data k = None"
  shows "IssueCertificate_post lower rnd now data store =
           (([(''message'', JStr (lit ''Missing required fields: recipient, course, date, issuer''))],
             400), store)
       \<and> VerifyCertificate_post lower cert_id data store =
           (([(''message'',
               JStr (lit (if cert_id = [] \<or> data = []
                          then ''Missing certificate_id or certificate_data.''
                          else ''Certificate data provided is incomplete.'')))], 400), store)
       \<and> fst (VerifyCertificate_post lower cert_id data store)
           = fst (VerifyCertificate_post lower cert_id data store')
       \<and> map_of (fst (fst (IssueCertificate_post lower rnd now data store))) ''authentic'' = None
       \<and> map_of (fst (fst (VerifyCertificate_post lower cert_id data store))) ''authentic'' = None"
proof -
  from assms have "\<not> has_required data"
    by (auto simp: has_required_iff)
  then show ?thesis
    by (simp add: IssueCertificate_post_def VerifyCertificate_post_def)
qed

theorem missing_field_rejected_witness:
  "''date'' \<in> set required_fields
   \<and> map_of [(''recipient'', JStr (lit ''Bob Lee'')), (''course'', JStr (lit ''Systems Design'')),
              (''issuer'', JStr (lit ''Acme''))] ''date'' = None
   \<and> IssueCertificate_post lower_ascii 7 scenario_time
        [(''recipient'', JStr (lit ''Bob Lee'')), (''course'', JStr (lit ''Systems Design'')),
         (''issuer'', JStr (lit ''Acme''))] [] =
           (([(''message'',
               JStr (lit ''Missing required fields: recipient, course, date, issuer''))],
             400), [])
   \<and> VerifyCertificate_post lower_ascii ''00000000-0000-4000-8000-000000000007''
        [(''recipient'', JStr (lit ''Bob Lee'')), (''course'', JStr (lit ''Systems Design'')),
         (''issuer'', JStr (lit ''Acme''))] [] =
           (([(''message'', JStr (lit ''Certificate data provided is incomplete.''))], 400), [])"
  using missing_field_rejected [of "''date''"
      "[(''recipient'', JStr (lit ''Bob Lee'')), (''course'', JStr (lit ''Systems Design'')),
        (''issuer'', JStr (lit ''Acme''))]" lower_ascii 7 scenario_time
      "[]" "''00000000-0000-4000-8000-000000000007''"]
  by (simp add: required_fields_def)

subsection \<open>The delimiter is not escaped\<close>

text \<open>
  Claim C9. Two documents with different (recipient, course) pairs, one with the pipe
  inside the recipient and one with it inside the course, have the same canonical bytes
  and the same fingerprint, for every \<open>lower\<close> that acts on ASCII strings as
  \<^verbatim>\<open>str.lower\<close> does. The common canonical string is \<open>a|b|c|2024-01-10|acme\<close>, and
  it can be encoded.
\<close>

theorem delimiter_collision:
  assumes "lower_on_ascii lower"
  shows "canonical_bytes lower
          [(''recipient'', JStr (lit ''a|b'')), (''course'', JStr (lit ''c'')),
           (''date'', JStr (lit ''2024-01-10'')), (''issuer'', JStr (lit ''acme''))]
       = canonical_bytes lower
          [(''recipient'', JStr (lit ''a'')), (''course'', JStr (lit ''b|c'')),
           (''date'', JStr (lit ''2024-01-10'')), (''issuer'', JStr (lit ''acme''))]
   \<and> generate_certificate_hash lower
          [(''recipient'', JStr (lit ''a|b'')), (''course'', JStr (lit ''c'')),
           (''date'', JStr (lit ''2024-01-10'')), (''issuer'', JStr (lit ''acme''))]
       = generate_certificate_hash lower
          [(''recipient'', JStr (lit ''a'')), (''course'', JStr (lit ''b|c'')),
           (''date'', JStr (lit ''2024-01-10'')), (''issuer'', JStr (lit ''acme''))]
   \<and> canonical_bytes lower
          [(''recipient'', JStr (lit ''a|b'')), (''course'', JStr (lit ''c'')),
           (''date'', JStr (lit ''2024-01-10'')), (''issuer'', JStr (lit ''acme''))]
       = encode_utf8 (lit ''a|b|c|2024-01-10|acme'')
   \<and> (\<exists>b. encode_utf8 (lit ''a|b|c|2024-01-10|acme'') = Inr b)
   \<and> (JStr (lit ''a|b''), JStr (lit ''c'')) \<noteq> (JStr (lit ''a''), JStr (lit ''b|c''))"
proof -
  have l: "lower s = lower_ascii s" if "ascii s" for s
    using assms that by (rule lower_asciiD)
  have "lower [97, 124, 98] = [97, 124, 98]" "lower [99] = [99]" "lower [97] = [97]"
    "lower [98, 124, 99] = [98, 124, 99]" "lower [97, 99, 109, 101] = [97, 99, 109, 101]"
    by (simp_all add: l ascii_def lower_ascii_def)
  then show ?thesis
    by (simp add: doc_eval string_eval)
qed

theorem delimiter_collision_witness:
  "lower_on_ascii lower_ascii
   \<and> canonical_bytes lower_ascii
          [(''recipient'', JStr (lit ''a|b'')), (''course'', JStr (lit ''c'')),
           (''date'', JStr (lit ''2024-01-10'')), (''issuer'', JStr (lit ''acme''))]
       = canonical_bytes lower_ascii
          [(''recipient'', JStr (lit ''a'')), (''course'', JStr (lit ''b|c'')),
           (''date'', JStr (lit ''2024-01-10'')), (''issuer'', JStr (lit ''acme''))]
   \<and> generate_certificate_hash lower_ascii
          [(''recipient'', JStr (lit ''a|b'')), (''course'', JStr (lit ''c'')),
           (''date'', JStr (lit ''2024-01-10'')), (''issuer'', JStr (lit ''acme''))]
       = generate_certificate_hash lower_ascii
          [(''recipient'', JStr (lit ''a'')), (''course'', JStr (lit ''b|c'')),
           (''date'', JStr (lit ''2024-01-10'')), (''issuer'', JStr (lit ''acme''))]"
  using delimiter_collision [OF lower_on_ascii_self] lower_on_ascii_self
  by (intro conjI) simp_all

subsection \<open>Verification does not write\<close>

text \<open>
  Claim C10. \<^verbatim>\<open>VerifyCertificate.post\<close> returns the ledger it was given, for every
  identifier and every candidate document, well-formed or not.
\<close>

theorem verify_read_only:
  "snd (VerifyCertificate_post lower cert_id cert_data store) = store"
  by (simp add: VerifyCertificate_post_def Let_def split: option.split sum.split)

subsection \<open>The canonical form\<close>







subsection \<open>Verification of an issued certificate\<close>

text \<open>
  Claim C2. When \<^verbatim>\<open>/api/issue\<close> answers 201 for a document, then after any further
  requests \<^verbatim>\<open>/api/verify\<close> with the returned identifier and the same document
  answers 200 with \<^verbatim>\<open>authentic\<close> true, the recorded and the verified fingerprint
  both equal to the fingerprint returned at issuance, and the time of issuance.
\<close>

theorem verify_after_issue:
  assumes "IssueCertificate_post lower rnd now D store = ((body, 201), store1)"
  shows "getitem body ''certificate_id'' = JStr (lit (str_uuid (uuid4 rnd)))
       \<and> VerifyCertificate_post lower (str_uuid (uuid4 rnd)) D (snd (run lower qs store1)) =
         (([(''message'', JStr (lit ''VERIFIED: The certificate is authentic and has not been tampered with.'')),
            (''authentic'', JBool True),
            (''recorded_hash'', getitem body ''recorded_hash''),
            (''verified_hash'', getitem body ''recorded_hash''),
            (''issued_at'', JStr (lit (strftime now)))], 200),
          snd (run lower qs store1))
       \<and> (\<exists>h. getitem body ''recorded_hash'' = JStr (lit h))"
proof -
  from issued_record [OF assms] obtain h
    where h: "generate_certificate_hash lower D = Inr h" and req: "has_required D"
    and cid: "getitem body ''certificate_id'' = JStr (lit (str_uuid (uuid4 rnd)))"
    and rh: "getitem body ''recorded_hash'' = JStr (lit h)"
    and look: "filter_by_first (snd (run lower qs store1)) (str_uuid (uuid4 rnd)) =
           Some \<lparr>row_id = next_row_id store, certificate_id = str_uuid (uuid4 rnd),
                  data_hash = h, issuer_name = the_str (getitem D ''issuer''),
                  issued_at = now\<rparr>"
    by blast
  from req have "D \<noteq> []" by (rule has_required_nonempty)
  moreover have "\<exists>h'. lit h = lit h'" by blast
  ultimately show ?thesis
    by (simp add: VerifyCertificate_post_def cid rh look h req str_uuid_nonempty)
qed

theorem verify_after_issue_witness:
  "IssueCertificate_post lower_ascii 0 scenario_time scenario_doc []
     = ((scenario_body, 201), [scenario_record])
   \<and> VerifyCertificate_post lower_ascii ''00000000-0000-4000-8000-000000000000'' scenario_doc
        [scenario_record,
         scenario_record\<lparr>row_id := 2,
                          certificate_id := ''00000000-0000-4000-8000-000000000001''\<rparr>] =
       (([(''message'',
           JStr (lit ''VERIFIED: The certificate is authentic and has not been tampered with.'')),
          (''authentic'', JBool True),
          (''recorded_hash'',
             JStr (lit ''6c10b3404e687938f56ea859003f91a64de1792b312a5aa18bb4ae55f479a5ad'')),
          (''verified_hash'',
             JStr (lit ''6c10b3404e687938f56ea859003f91a64de1792b312a5aa18bb4ae55f479a5ad'')),
          (''issued_at'', JStr (lit ''2024-01-10 09:05:07''))], 200),
        [scenario_record,
         scenario_record\<lparr>row_id := 2,
                          certificate_id := ''00000000-0000-4000-8000-000000000001''\<rparr>])"
proof -
  have "VerifyCertificate_post lower_ascii ''00000000-0000-4000-8000-000000000000''
        scenario_doc
        [scenario_record,
         scenario_record\<lparr>row_id := 2,
                          certificate_id := ''00000000-0000-4000-8000-000000000001''\<rparr>] =
       (([(''message'',
           JStr (lit ''VERIFIED: The certificate is authentic and has not been tampered with.'')),
          (''authentic'', JBool True),
          (''recorded_hash'',
             JStr (lit ''6c10b3404e687938f56ea859003f91a64de1792b312a5aa18bb4ae55f479a5ad'')),
          (''verified_hash'',
             JStr (lit ''6c10b3404e687938f56ea859003f91a64de1792b312a5aa18bb4ae55f479a5ad'')),
          (''issued_at'', JStr (lit ''2024-01-10 09:05:07''))], 200),
        [scenario_record,
         scenario_record\<lparr>row_id := 2,
                          certificate_id := ''00000000-0000-4000-8000-000000000001''\<rparr>])"
    using verify_after_issue [OF scenario_issue,
        of "[Issue 0 scenario_time scenario_doc, Verify [] scenario_doc,
             Issue 1 scenario_time scenario_doc]", unfolded scenario_later uuid_zero]
    by (simp add: getitem_def strftime_def pad2_def pad4_def hexdigit_def)
  with scenario_issue show ?thesis by (intro conjI)
qed

subsection \<open>Tamper detection\<close>

text \<open>
  Claim C3, as stated, fails. A document with recipient \<open>a|b\<close> and course \<open>c\<close> is
  issued; the candidate with recipient \<open>a\<close> and course \<open>b|c\<close> differs from it in
  the recipient by more than white space or letter case, and verification answers
  \<^verbatim>\<open>authentic\<close> true with equal fingerprints, since the pipe is not escaped.
\<close>

theorem tamper_counterexample:
  "\<not> ws_case_variant lower_ascii (lit ''a|b'') (lit ''a'')
   \<and> is_document [(''recipient'', JStr (lit ''a'')), (''course'', JStr (lit ''b|c'')),
                  (''date'', JStr (lit ''2024-01-10'')), (''issuer'', JStr (lit ''acme''))]
   \<and> IssueCertificate_post lower_ascii 0 scenario_time
        [(''recipient'', JStr (lit ''a|b'')), (''course'', JStr (lit ''c'')),
         (''date'', JStr (lit ''2024-01-10'')), (''issuer'', JStr (lit ''acme''))] [] =
       (([(''message'',
           JStr (lit ''Certificate hash successfully issued and recorded on the ledger.'')),
          (''certificate_id'', JStr (lit ''00000000-0000-4000-8000-000000000000'')),
          (''recorded_hash'',
           JStr (lit (hexdigest (sha256 (map of_nat (lit ''a|b|c|2024-01-10|acme'')))))),
          (''issued_to'', JStr (lit ''a|b''))], 201),
        [\<lparr>row_id = 1, certificate_id = ''00000000-0000-4000-8000-000000000000'',
          data_hash = hexdigest (sha256 (map of_nat (lit ''a|b|c|2024-01-10|acme''))),
          issuer_name = lit ''acme'', issued_at = scenario_time\<rparr>])
   \<and> VerifyCertificate_post lower_ascii ''00000000-0000-4000-8000-000000000000''
        [(''recipient'', JStr (lit ''a'')), (''course'', JStr (lit ''b|c'')),
         (''date'', JStr (lit ''2024-01-10'')), (''issuer'', JStr (lit ''acme''))]
        [\<lparr>row_id = 1, certificate_id = ''00000000-0000-4000-8000-000000000000'',
          data_hash = hexdigest (sha256 (map of_nat (lit ''a|b|c|2024-01-10|acme''))),
          issuer_name = lit ''acme'', issued_at = scenario_time\<rparr>] =
       (([(''message'',
           JStr (lit ''VERIFIED: The certificate is authentic and has not been tampered with.'')),
          (''authentic'', JBool True),
          (''recorded_hash'',
           JStr (lit (hexdigest (sha256 (map of_nat (lit ''a|b|c|2024-01-10|acme'')))))),
          (''verified_hash'',
           JStr (lit (hexdigest (sha256 (map of_nat (lit ''a|b|c|2024-01-10|acme'')))))),
          (''issued_at'', JStr (lit ''2024-01-10 09:05:07''))], 200),
        [\<lparr>row_id = 1, certificate_id = ''00000000-0000-4000-8000-000000000000'',
          data_hash = hexdigest (sha256 (map of_nat (lit ''a|b|c|2024-01-10|acme''))),
          issuer_name = lit ''acme'', issued_at = scenario_time\<rparr>])"
  by (simp add: ws_case_variant_ascii_iff is_document_def valid_str_def ledger_eval doc_eval
      string_eval)

text \<open>
  Claim C3, amended. Let a document be issued (status 201), and let a candidate document
  with the four fields, whose canonical string can be encoded, differ from it in some
  required field by more than surrounding white space or letter case: however white space
  is taken off the two values, \<open>lower\<close> sends what is left to two different strings
  (on ASCII strings: the two values are not related as in claim C4, lemma
  \<open>ws_case_variant_on_ascii\<close>).
  If the normalised recipient, course and date of the two documents hold no pipe (the
  issuer, which comes last, may hold one), and SHA-256 does not collide on the two
  canonical byte strings, then after any further requests \<^verbatim>\<open>/api/verify\<close> answers
  200 with \<^verbatim>\<open>authentic\<close> false and both fingerprints, the recorded one and the
  computed one, and they differ. A candidate whose canonical string cannot be encoded is
  answered with status 500 instead (lemma \<open>surrogate_document\<close>).
\<close>

theorem tamper_detected:
  assumes issue: "IssueCertificate_post lower rnd now D store = ((body, 201), store1)"
    and doc: "is_document D'"
    and enc: "list_all encodable (canonical_string lower D')"
    and differ: "k \<in> set required_fields" "\<not> ws_case_variant lower (field D k) (field D' k)"
    and nopipe: "\<forall>k \<in> set [''recipient'', ''course'', ''date''].
                   pipe \<notin> set (normalize_field lower k (field D k))
                 \<and> pipe \<notin> set (normalize_field lower k (field D' k))"
    and nocoll: "no_collision (canonical_bytes lower D) (canonical_bytes lower D')"
  shows "getitem body ''certificate_id'' = JStr (lit (str_uuid (uuid4 rnd)))
       \<and> (\<exists>h h'. h \<noteq> h' \<and> getitem body ''recorded_hash'' = JStr (lit h)
           \<and> generate_certificate_hash lower D' = Inr h'
           \<and> VerifyCertificate_post lower (str_uuid (uuid4 rnd)) D'
                (snd (run lower qs store1)) =
              (([(''message'', JStr (lit ''FAILED: The certificate data has been altered since issuance.'')),
                 (''authentic'', JBool False),
                 (''recorded_hash'', JStr (lit h)),
                 (''verified_hash'', JStr (lit h'))], 200),
               snd (run lower qs store1)))"
proof -
  from issued_record [OF issue] obtain h
    where h: "generate_certificate_hash lower D = Inr h" and req: "has_required D"
    and cid: "getitem body ''certificate_id'' = JStr (lit (str_uuid (uuid4 rnd)))"
    and rh: "getitem body ''recorded_hash'' = JStr (lit h)"
    and look: "filter_by_first (snd (run lower qs store1)) (str_uuid (uuid4 rnd)) =
           Some \<lparr>row_id = next_row_id store, certificate_id = str_uuid (uuid4 rnd),
                  data_hash = h, issuer_name = the_str (getitem D ''issuer''),
                  issued_at = now\<rparr>"
    by blast
  have cD: "canonical_bytes lower D = encode_utf8 (canonical_string lower D)"
  proof -
    from req h obtain r c d i where "map_of D ''recipient'' = Some (JStr r)"
      "map_of D ''course'' = Some (JStr c)" "map_of D ''date'' = Some (JStr d)"
      "map_of D ''issuer'' = Some (JStr i)"
      by (rule hash_fields)
    then have "canonical_bytes lower D = canonical_form lower D"
      by (rule canonical_bytes_fields)
    then show ?thesis by (simp add: canonical_form_def)
  qed
  with h obtain b where b: "canonical_bytes lower D = Inr b"
    and eD: "encode_utf8 (canonical_string lower D) = Inr b"
    and hD: "h = hexdigest (sha256 b)"
    by (auto simp: generate_certificate_hash_def split: sum.splits)
  from doc have cD': "canonical_bytes lower D' = encode_utf8 (canonical_string lower D')"
    by (simp add: canonical_bytes_document canonical_form_def)
  from enc obtain b' where eD': "encode_utf8 (canonical_string lower D') = Inr b'"
    using encode_utf8_Inr_iff by blast
  with cD' have b': "canonical_bytes lower D' = Inr b'" by simp
  let ?h' = "hexdigest (sha256 b')"
  from b' have h': "generate_certificate_hash lower D' = Inr ?h'"
    by (simp add: generate_certificate_hash_def)
  have "canonical_string lower D \<noteq> canonical_string lower D'"
  proof
    assume "canonical_string lower D = canonical_string lower D'"
    with nopipe have "\<forall>k \<in> set required_fields.
           normalize_field lower k (field D k) = normalize_field lower k (field D' k)"
      by (rule canonical_string_inj)
    with differ(1)
    have "normalize_field lower k (field D k) = normalize_field lower k (field D' k)"
      by blast
    then have "ws_case_variant lower (field D k) (field D' k)"
      by (rule variant_normalize)
    with differ(2) show False by simp
  qed
  with eD eD' have "b \<noteq> b'"
    using encode_utf8_inj by blast
  with nocoll b b' have "sha256 b \<noteq> sha256 b'"
    by (auto simp: no_collision_def)
  then have ne: "h \<noteq> ?h'"
    unfolding hD using hexdigest_inj by blast
  from doc have req': "has_required D'" by (rule is_document_required)
  then have "D' \<noteq> []" by (rule has_required_nonempty)
  then have "VerifyCertificate_post lower (str_uuid (uuid4 rnd)) D'
                (snd (run lower qs store1)) =
              (([(''message'', JStr (lit ''FAILED: The certificate data has been altered since issuance.'')),
                 (''authentic'', JBool False),
                 (''recorded_hash'', JStr (lit h)),
                 (''verified_hash'', JStr (lit ?h'))], 200),
               snd (run lower qs store1))"
    using ne by (simp add: VerifyCertificate_post_def look h' req' str_uuid_nonempty)
  with ne rh h' cid show ?thesis by blast
qed

theorem tamper_detected_witness:
  "IssueCertificate_post lower_ascii 0 scenario_time scenario_doc []
     = ((scenario_body, 201), [scenario_record])
   \<and> is_document scenario_tampered
   \<and> list_all encodable (canonical_string lower_ascii scenario_tampered)
   \<and> ''course'' \<in> set required_fields
   \<and> \<not> ws_case_variant lower_ascii (field scenario_doc ''course'')
         (field scenario_tampered ''course'')
   \<and> list_all (\<lambda>k. pipe \<notin> set (normalize_field lower_ascii k (field scenario_doc k))
                 \<and> pipe \<notin> set (normalize_field lower_ascii k (field scenario_tampered k)))
        [''recipient'', ''course'', ''date'']
   \<and> no_collision (canonical_bytes lower_ascii scenario_doc)
        (canonical_bytes lower_ascii scenario_tampered)
   \<and> VerifyCertificate_post lower_ascii ''00000000-0000-4000-8000-000000000000''
        scenario_tampered [scenario_record] =
       (([(''message'',
           JStr (lit ''FAILED: The certificate data has been altered since issuance.'')),
          (''authentic'', JBool False),
          (''recorded_hash'',
             JStr (lit ''6c10b3404e687938f56ea859003f91a64de1792b312a5aa18bb4ae55f479a5ad'')),
          (''verified_hash'',
             JStr (lit ''5300103c2cb573a90b5ee18c9bd766612d566b41e945cca25accba3ba0fab52f''))],
         200),
        [scenario_record])"
proof -
  have differ: "\<not> ws_case_variant lower_ascii (field scenario_doc ''course'')
                  (field scenario_tampered ''course'')"
    by (simp add: ws_case_variant_ascii_iff field_def getitem_def string_eval)
  have enc: "list_all encodable (canonical_string lower_ascii scenario_tampered)"
    by (simp add: canonical_string_def normalize_field_def field_def getitem_def
        required_fields_def string_eval)
  have nopipe: "\<forall>k \<in> set [''recipient'', ''course'', ''date''].
      pipe \<notin> set (normalize_field lower_ascii k (field scenario_doc k))
    \<and> pipe \<notin> set (normalize_field lower_ascii k (field scenario_tampered k))"
    by (simp add: normalize_field_def field_def getitem_def string_eval)
  have k: "''course'' \<in> set required_fields"
    by (simp add: required_fields_def)
  from tamper_detected [OF scenario_issue scenario_documents(2) enc k differ nopipe
      scenario_no_collision, of "[]"]
  obtain h h' where "getitem scenario_body ''recorded_hash'' = JStr (lit h)"
    and "generate_certificate_hash lower_ascii scenario_tampered = Inr h'"
    and v: "VerifyCertificate_post lower_ascii (str_uuid (uuid4 0))
              scenario_tampered (snd (run lower_ascii [] [scenario_record])) =
            (([(''message'',
                JStr (lit ''FAILED: The certificate data has been altered since issuance.'')),
               (''authentic'', JBool False), (''recorded_hash'', JStr (lit h)),
               (''verified_hash'', JStr (lit h'))], 200),
             snd (run lower_ascii [] [scenario_record]))"
    by blast
  then have "h = ''6c10b3404e687938f56ea859003f91a64de1792b312a5aa18bb4ae55f479a5ad''"
    and "h' = ''5300103c2cb573a90b5ee18c9bd766612d566b41e945cca25accba3ba0fab52f''"
    by (simp_all add: getitem_def scenario_tampered_fingerprint lit_eq_iff)
  with v have "VerifyCertificate_post lower_ascii ''00000000-0000-4000-8000-000000000000''
        scenario_tampered [scenario_record] =
       (([(''message'',
           JStr (lit ''FAILED: The certificate data has been altered since issuance.'')),
          (''authentic'', JBool False),
          (''recorded_hash'',
             JStr (lit ''6c10b3404e687938f56ea859003f91a64de1792b312a5aa18bb4ae55f479a5ad'')),
          (''verified_hash'',
             JStr (lit ''5300103c2cb573a90b5ee18c9bd766612d566b41e945cca25accba3ba0fab52f''))],
         200),
        [scenario_record])"
    by (simp add: uuid_zero)
  moreover from nopipe
  have "list_all (\<lambda>k. pipe \<notin> set (normalize_field lower_ascii k (field scenario_doc k))
                 \<and> pipe \<notin> set (normalize_field lower_ascii k (field scenario_tampered k)))
        [''recipient'', ''course'', ''date'']"
    by (simp add: list_all_iff)
  ultimately show ?thesis
    using scenario_issue scenario_documents(2) enc k differ scenario_no_collision
    by (intro conjI)
qed

subsection \<open>Unknown identifiers\<close>




subsection \<open>The ledger is append-only\<close>

text \<open>
  Claim C6. After \<^verbatim>\<open>/api/issue\<close> has answered 201, the record stored under the
  returned identifier (row key, identifier, fingerprint, issuer, time of issuance) is
  what every later lookup finds, whatever requests follow. From any ledger, a sequence
  of requests only extends it: every request leaves the ledger as it is or appends one
  record, and there is no request that updates or deletes.
\<close>

theorem issued_record_immutable:
  assumes "IssueCertificate_post lower rnd now D store = ((body, 201), store1)"
  shows "prefix store1 (snd (run lower qs store1))
       \<and> getitem body ''certificate_id'' = JStr (lit (str_uuid (uuid4 rnd)))
       \<and> (\<exists>h. getitem body ''recorded_hash'' = JStr (lit h)
            \<and> filter_by_first store1 (str_uuid (uuid4 rnd))
                = Some \<lparr>row_id = next_row_id store,
                         certificate_id = str_uuid (uuid4 rnd),
                         data_hash = h, issuer_name = the_str (getitem D ''issuer''),
                         issued_at = now\<rparr>)
       \<and> filter_by_first (snd (run lower qs store1)) (str_uuid (uuid4 rnd))
           = filter_by_first store1 (str_uuid (uuid4 rnd))
       \<and> prefix store0 (snd (run lower qs store0))
       \<and> (snd (handle lower q store0) = store0 \<or> (\<exists>r. snd (handle lower q store0) = store0 @ [r]))"
proof -
  from issued_record [OF assms] obtain h
    where cid: "getitem body ''certificate_id'' = JStr (lit (str_uuid (uuid4 rnd)))"
    and rh: "getitem body ''recorded_hash'' = JStr (lit h)"
    and look: "\<forall>qs. filter_by_first (snd (run lower qs store1)) (str_uuid (uuid4 rnd)) =
           Some \<lparr>row_id = next_row_id store, certificate_id = str_uuid (uuid4 rnd),
                  data_hash = h, issuer_name = the_str (getitem D ''issuer''),
                  issued_at = now\<rparr>"
    by blast
  from look have l0: "filter_by_first store1 (str_uuid (uuid4 rnd)) =
           Some \<lparr>row_id = next_row_id store, certificate_id = str_uuid (uuid4 rnd),
                  data_hash = h, issuer_name = the_str (getitem D ''issuer''),
                  issued_at = now\<rparr>"
    using spec [OF look, of "[]"] by simp
  have "snd (handle lower q store0) = store0 \<or> (\<exists>r. snd (handle lower q store0) = store0 @ [r])"
    using handle_cases [of lower q store0] by blast
  with cid rh look l0 show ?thesis
    by (simp add: run_prefix)
qed

theorem issued_record_immutable_witness:
  "IssueCertificate_post lower_ascii 0 scenario_time scenario_doc []
     = ((scenario_body, 201), [scenario_record])
   \<and> prefix [scenario_record]
        [scenario_record,
         scenario_record\<lparr>row_id := 2,
                          certificate_id := ''00000000-0000-4000-8000-000000000001''\<rparr>]
   \<and> filter_by_first
        [scenario_record,
         scenario_record\<lparr>row_id := 2,
                          certificate_id := ''00000000-0000-4000-8000-000000000001''\<rparr>]
        ''00000000-0000-4000-8000-000000000000'' = Some scenario_record
   \<and> filter_by_first [scenario_record] ''00000000-0000-4000-8000-000000000000''
       = Some scenario_record"
proof -
  have "prefix [scenario_record]
        [scenario_record,
         scenario_record\<lparr>row_id := 2,
                          certificate_id := ''00000000-0000-4000-8000-000000000001''\<rparr>]
   \<and> filter_by_first
        [scenario_record,
         scenario_record\<lparr>row_id := 2,
                          certificate_id := ''00000000-0000-4000-8000-000000000001''\<rparr>]
        ''00000000-0000-4000-8000-000000000000'' = Some scenario_record
   \<and> filter_by_first [scenario_record] ''00000000-0000-4000-8000-000000000000''
       = Some scenario_record"
    using issued_record_immutable [OF scenario_issue,
        of "[Issue 0 scenario_time scenario_doc, Verify [] scenario_doc,
             Issue 1 scenario_time scenario_doc]" "[]" "Verify [] []",
        unfolded scenario_later uuid_zero]
    by (simp add: getitem_def filter_by_first_def)
  with scenario_issue show ?thesis by blast
qed

subsection \<open>Identifiers are unique\<close>

text \<open>
  Claim C7. From a ledger without repeated identifiers (the empty table to begin with),
  for every sequence of requests, with whatever documents and random numbers: the
  identifiers returned by the successful issues are pairwise distinct and new, and the
  ledger still has no repeated identifier.
\<close>

theorem issued_identifiers_distinct:
  assumes "distinct (map certificate_id store)"
  shows "distinct (issued_ids (fst (run lower qs store)))
       \<and> distinct (map certificate_id (snd (run lower qs store)))
       \<and> (\<forall>c \<in> set (issued_ids (fst (run lower qs store))).
            \<exists>s. c = JStr (lit s) \<and> s \<in> set (map certificate_id (snd (run lower qs store)))
                \<and> s \<notin> set (map certificate_id store))"
  using assms
proof (induction qs arbitrary: store)
  case Nil
  then show ?case by simp
next
  case (Cons q qs)
  obtain body status store' where hq: "handle lower q store = ((body, status), store')"
    by (metis surj_pair)
  obtain resps store'' where rq: "run lower qs store' = (resps, store'')"
    by (metis surj_pair)
  have run_eq: "run lower (q # qs) store = ((body, status) # resps, store'')"
    by (simp add: hq rq)
  obtain new where new: "store'' = store' @ new"
    using run_extends [of lower qs store'] rq by auto
  consider (same) "store' = store" "status \<noteq> 201"
    | (added) r where "store' = store @ [r]" "certificate_id r \<notin> set (map certificate_id store)"
        "status = 201" "getitem body ''certificate_id'' = JStr (lit (certificate_id r))"
    using handle_cases [of lower q store] hq by auto
  then show ?case
  proof cases
    case same
    with Cons.IH [OF Cons.prems] rq run_eq show ?thesis
      by simp
  next
    case added
    have d': "distinct (map certificate_id store')"
      using added Cons.prems by simp
    from Cons.IH [OF d'] rq
    have ih1: "distinct (issued_ids resps)" and ih2: "distinct (map certificate_id store'')"
      and ih3: "\<forall>c \<in> set (issued_ids resps).
            \<exists>s. c = JStr (lit s) \<and> s \<in> set (map certificate_id store'')
                \<and> s \<notin> set (map certificate_id store')"
      by simp_all
    have fresh: "JStr (lit (certificate_id r)) \<notin> set (issued_ids resps)"
      using ih3 added(1) by (auto simp: lit_eq_iff)
    have inl: "certificate_id r \<in> set (map certificate_id store'')"
      using new added(1) by simp
    have ids: "issued_ids (fst (run lower (q # qs) store))
        = JStr (lit (certificate_id r)) # issued_ids resps"
      unfolding run_eq using added by simp
    have fin: "snd (run lower (q # qs) store) = store''"
      unfolding run_eq by simp
    have tail: "\<forall>c \<in> set (issued_ids resps).
            \<exists>s. c = JStr (lit s) \<and> s \<in> set (map certificate_id store'')
                \<and> s \<notin> set (map certificate_id store)"
    proof
      fix c assume "c \<in> set (issued_ids resps)"
      with ih3 obtain s where "c = JStr (lit s)" "s \<in> set (map certificate_id store'')"
        "s \<notin> set (map certificate_id store')" by blast
      with added(1) show "\<exists>s. c = JStr (lit s) \<and> s \<in> set (map certificate_id store'')
                \<and> s \<notin> set (map certificate_id store)" by auto
    qed
    have head: "\<exists>s. JStr (lit (certificate_id r)) = JStr (lit s)
                \<and> s \<in> set (map certificate_id store'')
                \<and> s \<notin> set (map certificate_id store)"
      using inl added(2) by blast
    show ?thesis
      unfolding ids fin using ih1 ih2 fresh head tail by simp
  qed
qed

theorem issued_identifiers_distinct_witness:
  "distinct (map certificate_id [])
   \<and> issued_ids (fst (run lower_ascii
        [Issue 0 scenario_time scenario_doc, Issue 0 scenario_time scenario_doc,
         Issue 1 scenario_time scenario_doc] []))
       = [JStr (lit ''00000000-0000-4000-8000-000000000000''),
          JStr (lit ''00000000-0000-4000-8000-000000000001'')]
   \<and> distinct (issued_ids (fst (run lower_ascii
        [Issue 0 scenario_time scenario_doc, Issue 0 scenario_time scenario_doc,
         Issue 1 scenario_time scenario_doc] [])))
   \<and> distinct (map certificate_id
        (snd (run lower_ascii
           [Issue 0 scenario_time scenario_doc, Issue 0 scenario_time scenario_doc,
            Issue 1 scenario_time scenario_doc] [])))"
  using issued_identifiers_distinct [of "[]" lower_ascii
      "[Issue 0 scenario_time scenario_doc, Issue 0 scenario_time scenario_doc,
        Issue 1 scenario_time scenario_doc]"]
  by (simp add: ledger_eval scenario_fingerprint has_required_def required_fields_def
      getitem_def)

end
